theory Spec2Isabelle
  imports Complex_Main
begin

section \<open>Numbers, vectors and the random source\<close>

text \<open>
  The program is JavaScript (with one GLSL fragment). Its numbers are IEEE floating point;
  they are modelled here as real numbers, so every statement below is about the exact
  arithmetic the code writes down. \<open>Math.random()\<close> is modelled as a stream
  \<open>rng :: nat \<Rightarrow> real\<close> together with a counter of the draws made so far; the
  language guarantees every draw to lie in \<open>[0, 1)\<close>, which is the predicate \<open>rng_ok\<close>.
\<close>

type_synonym vec3 = "real \<times> real \<times> real"

type_synonym rng = "nat \<Rightarrow> real"

definition rng_ok :: "rng \<Rightarrow> bool" where
  "rng_ok rnd = (\<forall>k. 0 \<le> rnd k \<and> rnd k < 1)"

definition vadd :: "vec3 \<Rightarrow> vec3 \<Rightarrow> vec3" where
  "vadd a b = (case a of (ax, ay, az) \<Rightarrow> case b of (bx, by, bz) \<Rightarrow> (ax + bx, ay + by, az + bz))"

definition vscale :: "vec3 \<Rightarrow> real \<Rightarrow> vec3" where
  "vscale a s = (case a of (ax, ay, az) \<Rightarrow> (ax * s, ay * s, az * s))"

text \<open>\<open>Vector3.lerpVectors(v1, v2, alpha)\<close> of three.js: \<open>v1 + (v2 - v1) * alpha\<close>, per component.\<close>

definition lerpVectors :: "vec3 \<Rightarrow> vec3 \<Rightarrow> real \<Rightarrow> vec3" where
  "lerpVectors v1 v2 alpha =
     (case v1 of (ax, ay, az) \<Rightarrow> case v2 of (bx, by, bz) \<Rightarrow>
        (ax + (bx - ax) * alpha, ay + (by - ay) * alpha, az + (bz - az) * alpha))"

section \<open>The explosion shader (\<open>injectExplosionShader\<close>)\<close>

text \<open>
  GLSL's built-ins, as the language specification defines them:
  \<open>clamp(x, lo, hi) = min(max(x, lo), hi)\<close> and
  \<open>smoothstep(e0, e1, x) = t * t * (3 - 2 * t)\<close> with \<open>t = clamp((x - e0) / (e1 - e0), 0, 1)\<close>.
  \<open>pow(x, y)\<close> is the real power \<open>x powr y\<close>, which is \<open>0\<close> at \<open>x = 0\<close> for \<open>y > 0\<close>.
\<close>

definition clamp :: "real \<Rightarrow> real \<Rightarrow> real \<Rightarrow> real" where
  "clamp v lo hi = min (max v lo) hi"

definition smoothstep :: "real \<Rightarrow> real \<Rightarrow> real \<Rightarrow> real" where
  "smoothstep e0 e1 v = (let t = clamp ((v - e0) / (e1 - e0)) 0 1 in t * t * (3 - 2 * t))"

definition explodeFactor :: "real \<Rightarrow> real" where
  "explodeFactor uProgress = (let progress = smoothstep 0 1 uProgress in 1 - progress powr 0.5)"

text \<open>The injected vertex code: \<open>transformed += aRandomOffset * explodeFactor * 20.0\<close>.\<close>

definition begin_vertex :: "real \<Rightarrow> vec3 \<Rightarrow> vec3 \<Rightarrow> vec3" where
  "begin_vertex uProgress aRandomOffset transformed =
     vadd transformed (vscale (vscale aRandomOffset (explodeFactor uProgress)) 20)"

section \<open>The assembly animation (first block of \<open>animate\<close>)\<close>

definition treeHeight :: real where "treeHeight = 12"

definition treeRadius :: real where "treeRadius = 4"

definition explosionAcceleration :: real where "explosionAcceleration = 0.00025"

definition starFinalPosition :: vec3 where "starFinalPosition = (0, treeHeight + 0.2, 0)"

record assembly =
  uProgress :: real
  explosionSpeed :: real
  star_position :: vec3
  starLight_position :: vec3
  autoRotate :: bool

text \<open>
  The state at start-up: \<open>uProgress = 0\<close>, \<open>explosionSpeed = 0.001\<close>, the star and its light
  at \<open>starFinalPosition + starRandomOffset\<close>, \<open>controls.autoRotate = false\<close>.
\<close>

definition assembly_init :: "vec3 \<Rightarrow> assembly" where
  "assembly_init starRandomOffset =
     \<lparr> uProgress = 0, explosionSpeed = 0.001,
       star_position = vadd starFinalPosition starRandomOffset,
       starLight_position = vadd starFinalPosition starRandomOffset,
       autoRotate = False \<rparr>"

text \<open>
  One frame of the block guarded by \<open>if (explosionUniforms.uProgress.value < 1)\<close>. The light
  copies the star's position before the final snap, as in the source.
\<close>

definition animate_assembly :: "vec3 \<Rightarrow> assembly \<Rightarrow> assembly" where
  "animate_assembly starRandomOffset s =
     (if uProgress s < 1 then
        (let speed' = explosionSpeed s + explosionAcceleration;
             progress = uProgress s + speed';
             easeProgress = 1 - (1 - progress)\<^sup>2;
             pos = lerpVectors (vadd starFinalPosition starRandomOffset) starFinalPosition easeProgress
         in if progress \<ge> 1
            then s\<lparr> uProgress := 1, explosionSpeed := speed', star_position := starFinalPosition,
                    starLight_position := pos, autoRotate := True \<rparr>
            else s\<lparr> uProgress := progress, explosionSpeed := speed', star_position := pos,
                    starLight_position := pos \<rparr>)
      else s)"

text \<open>The state after \<open>n\<close> frames.\<close>

definition assembly_frames :: "vec3 \<Rightarrow> nat \<Rightarrow> assembly" where
  "assembly_frames starRandomOffset n =
     ((animate_assembly starRandomOffset) ^^ n) (assembly_init starRandomOffset)"

section \<open>Populating the instance groups\<close>

text \<open>
  An \<open>InstancedMesh\<close> of capacity \<open>count\<close> is a store of \<open>count\<close> instance matrices;
  \<open>setMatrixAt(i, dummy.matrix)\<close> overwrites entry \<open>i\<close>. The matrix is kept as the
  position, rotation and uniform scale of \<open>dummy\<close> it is composed from. What a fresh mesh
  holds is three.js's business; it is taken to be the identity, and every loop below
  overwrites all entries.
\<close>

record inst =
  position :: vec3
  rotation :: vec3
  scale :: real

definition identity_instance :: inst where
  "identity_instance = \<lparr> position = (0, 0, 0), rotation = (0, 0, 0), scale = 1 \<rparr>"

subsection \<open>Foliage: the spiral loop over \<open>treeMesh\<close>\<close>

definition leaf_ratio :: "nat \<Rightarrow> nat \<Rightarrow> real" where
  "leaf_ratio leafCount i = real i / real leafCount"

text \<open>\<open>angle = ratio * Math.PI * 40 + Math.random() * 0.5\<close>, with \<open>u\<close> the random draw.\<close>

definition leaf_angle :: "nat \<Rightarrow> nat \<Rightarrow> real \<Rightarrow> real" where
  "leaf_angle leafCount i u = leaf_ratio leafCount i * pi * 40 + u * 0.5"

text \<open>\<open>dist = r * (0.5 + Math.random() * 0.5)\<close> with \<open>r = (1 - ratio) * treeRadius\<close>.\<close>

definition leaf_dist :: "nat \<Rightarrow> nat \<Rightarrow> real \<Rightarrow> real" where
  "leaf_dist leafCount i u =
     (let r = (1 - leaf_ratio leafCount i) * treeRadius in r * (0.5 + u * 0.5))"

text \<open>The body of the loop at index \<open>i\<close>; \<open>k\<close> counts the draws made before it.\<close>

definition leaf_instance :: "nat \<Rightarrow> rng \<Rightarrow> nat \<Rightarrow> nat \<Rightarrow> inst" where
  "leaf_instance leafCount rnd i k =
     (let h = leaf_ratio leafCount i * treeHeight;
          angle = leaf_angle leafCount i (rnd k);
          dist = leaf_dist leafCount i (rnd (k + 1));
          x = cos angle * dist;
          z = sin angle * dist;
          y = h
      in \<lparr> position = (x, y, z),
           rotation = (rnd (k + 2) * pi, rnd (k + 3) * pi, rnd (k + 4) * pi),
           scale = 0.5 + rnd (k + 5) * 1.5 \<rparr>)"

definition leaf_step :: "nat \<Rightarrow> rng \<Rightarrow> nat \<Rightarrow> inst list \<times> nat \<Rightarrow> inst list \<times> nat" where
  "leaf_step leafCount rnd i st =
     (case st of (treeMesh, k) \<Rightarrow> (treeMesh[i := leaf_instance leafCount rnd i k], k + 6))"

text \<open>\<open>for (let i = 0; i < leafCount; i++)\<close> on a fresh mesh of capacity \<open>leafCount\<close>.\<close>

definition build_tree :: "nat \<Rightarrow> rng \<Rightarrow> nat \<Rightarrow> inst list \<times> nat" where
  "build_tree leafCount rnd k =
     fold (leaf_step leafCount rnd) [0..<leafCount] (replicate leafCount identity_instance, k)"

subsection \<open>Ornaments and gift boxes: the scatter loops\<close>

text \<open>
  \<open>THREE.Color(hex)\<close> decodes a hexadecimal colour into its \<open>r\<close>, \<open>g\<close>, \<open>b\<close> components
  inside three.js; the decoding is the parameter \<open>Color\<close> of everything that uses a colour.
\<close>

type_synonym color = vec3

text \<open>
  One such decoding, that of three.js without colour management (each byte divided by 255),
  for concrete examples.
\<close>

definition hex_color :: "nat \<Rightarrow> color" where
  "hex_color hex =
     (real (hex div 65536 mod 256) / 255, real (hex div 256 mod 256) / 255, real (hex mod 256) / 255)"

definition colorPalette :: "(nat \<Rightarrow> color) \<Rightarrow> color list" where
  "colorPalette Color = map Color [0xcc2222, 0xd4af37, 0x2266cc, 0x22aa44, 0xeecc44]"

text \<open>\<open>colorPalette[Math.floor(u * colorPalette.length)]\<close>.\<close>

definition pick_color :: "(nat \<Rightarrow> color) \<Rightarrow> real \<Rightarrow> color" where
  "pick_color Color u = colorPalette Color ! nat \<lfloor>u * real (length (colorPalette Color))\<rfloor>"

text \<open>Writing the three components of a colour at instance \<open>i\<close> of a flat \<open>Float32Array\<close>.\<close>

definition write3 :: "real list \<Rightarrow> nat \<Rightarrow> color \<Rightarrow> real list" where
  "write3 arr i c =
     (case c of (r, g, b) \<Rightarrow> arr[i * 3 := r, i * 3 + 1 := g, i * 3 + 2 := b])"

record ornament_group =
  ornaments_mesh :: "inst list"
  colors :: "real list"
  originalColors :: "real list"
  draws :: nat

definition ornament_instance :: "rng \<Rightarrow> nat \<Rightarrow> inst" where
  "ornament_instance rnd k =
     (let ratio = rnd k;
          h = ratio * treeHeight;
          r = (1 - ratio) * treeRadius;
          angle = rnd (k + 1) * pi * 2;
          x = cos angle * r;
          z = sin angle * r;
          y = h
      in \<lparr> position = (x, y, z), rotation = (0, 0, 0), scale = 1 + rnd (k + 2) \<rparr>)"

definition ornament_step :: "(nat \<Rightarrow> color) \<Rightarrow> rng \<Rightarrow> nat \<Rightarrow> ornament_group \<Rightarrow> ornament_group" where
  "ornament_step Color rnd i g =
     (let k = draws g;
          c = pick_color Color (rnd (k + 3))
      in \<lparr> ornaments_mesh = (ornaments_mesh g)[i := ornament_instance rnd k],
           colors = colors g @ (case c of (r, g, b) \<Rightarrow> [r, g, b]),
           originalColors = write3 (originalColors g) i c,
           draws = k + 4 \<rparr>)"

text \<open>
  \<open>for (let i = 0; i < ornamentCount; i++)\<close>, starting from a mesh of capacity
  \<open>ornamentCount\<close>, the empty array \<open>colors\<close> and the zero-filled
  \<open>originalColors = new Float32Array(ornamentCount * 3)\<close>.
\<close>

definition build_ornaments :: "(nat \<Rightarrow> color) \<Rightarrow> nat \<Rightarrow> rng \<Rightarrow> nat \<Rightarrow> ornament_group" where
  "build_ornaments Color ornamentCount rnd k =
     fold (ornament_step Color rnd) [0..<ornamentCount]
       \<lparr> ornaments_mesh = replicate ornamentCount identity_instance, colors = [],
         originalColors = replicate (ornamentCount * 3) 0, draws = k \<rparr>"

record box_group =
  boxes_mesh :: "inst list"
  boxColors :: "real list"
  box_draws :: nat

definition box_instance :: "rng \<Rightarrow> nat \<Rightarrow> inst" where
  "box_instance rnd k =
     (let ratio = rnd k;
          h = ratio * treeHeight;
          r = (1 - ratio) * treeRadius;
          angle = rnd (k + 1) * pi * 2;
          x = cos angle * (r + 0.2);
          z = sin angle * (r + 0.2);
          y = h
      in \<lparr> position = (x, y, z), rotation = (rnd (k + 2), rnd (k + 3), rnd (k + 4)),
           scale = 0.8 + rnd (k + 5) \<rparr>)"

definition box_step :: "(nat \<Rightarrow> color) \<Rightarrow> rng \<Rightarrow> nat \<Rightarrow> box_group \<Rightarrow> box_group" where
  "box_step Color rnd i g =
     (let k = box_draws g;
          c = pick_color Color (rnd (k + 6))
      in \<lparr> boxes_mesh = (boxes_mesh g)[i := box_instance rnd k],
           boxColors = boxColors g @ (case c of (r, g, b) \<Rightarrow> [r, g, b]),
           box_draws = k + 7 \<rparr>)"

definition build_boxes :: "(nat \<Rightarrow> color) \<Rightarrow> nat \<Rightarrow> rng \<Rightarrow> nat \<Rightarrow> box_group" where
  "build_boxes Color boxCount rnd k =
     fold (box_step Color rnd) [0..<boxCount]
       \<lparr> boxes_mesh = replicate boxCount identity_instance, boxColors = [], box_draws = k \<rparr>"

text \<open>The distance of a position from the tree's axis (the \<open>y\<close> axis) and its height.\<close>

definition radial_distance :: "vec3 \<Rightarrow> real" where
  "radial_distance p = (case p of (x, y, z) \<Rightarrow> sqrt (x\<^sup>2 + z\<^sup>2))"

definition height :: "vec3 \<Rightarrow> real" where
  "height p = (case p of (x, y, z) \<Rightarrow> y)"

section \<open>Fireworks\<close>

text \<open>
  The pool \<open>fireworks\<close> is a JavaScript array of objects tagged \<open>type: 'rocket'\<close> or
  \<open>type: 'explosion'\<close>. A rocket carries its one-point visual (the position attribute
  \<open>[x, y, z]\<close> and the material's colour); an explosion carries the flat position and colour
  attributes of its points, the material's opacity, the particle velocities, \<open>life\<close> and
  \<open>decay\<close>. Removing an entity from the pool is what remains of \<open>scene.remove\<close> and
  \<open>dispose\<close>: the visual is part of the entity.
\<close>

definition fireworkColors :: "nat list" where
  "fireworkColors =
     [0xff4444, 0x44ff44, 0x4444ff, 0xffff44, 0xff44ff, 0x44ffff, 0xffffff, 0xff8844, 0x88ff44]"

record rocket =
  rocket_position :: "real list"
  rocket_color :: nat
  fw_x :: real
  fw_y :: real
  fw_z :: real
  targetY :: real
  fw_speed :: real

record explosion =
  positions :: "real list"
  fw_colors :: "real list"
  opacity :: real
  velocities :: "vec3 list"
  life :: real
  decay :: real

datatype firework = Rocket rocket | Explosion explosion

text \<open>The pool together with the number of \<open>Math.random()\<close> calls made so far.\<close>

record pool =
  fireworks :: "firework list"
  random_calls :: nat

datatype error = TypeError

definition createRocket :: "rng \<Rightarrow> nat \<Rightarrow> rocket \<times> nat" where
  "createRocket rnd k =
     (let minRadius = 18;
          maxRadius = 35;
          angle = rnd k * pi * 2;
          radius = minRadius + rnd (k + 1) * (maxRadius - minRadius);
          startX = cos angle * radius;
          startZ = sin angle * radius;
          startY = 0;
          target = 8 + rnd (k + 2) * 8;
          rocketColor = fireworkColors ! nat \<lfloor>rnd (k + 3) * real (length fireworkColors)\<rfloor>
      in (\<lparr> rocket_position = [startX, startY, startZ], rocket_color = rocketColor,
             fw_x = startX, fw_y = startY, fw_z = startZ, targetY = target,
             fw_speed = 0.15 + rnd (k + 4) * 0.1 \<rparr>,
          k + 5))"

definition particleCount :: nat where "particleCount = 100"

text \<open>
  The body of the loop of \<open>createExplosion\<close> at particle \<open>i\<close>, on the arrays \<open>positions\<close>,
  \<open>velocities\<close>, \<open>colors\<close> and the count of draws.
\<close>

definition particle_init ::
  "(nat \<Rightarrow> color) \<Rightarrow> rng \<Rightarrow> real \<Rightarrow> real \<Rightarrow> real \<Rightarrow> nat \<Rightarrow>
   real list \<times> vec3 list \<times> real list \<times> nat \<Rightarrow> real list \<times> vec3 list \<times> real list \<times> nat" where
  "particle_init Color rnd x y z i st =
     (case st of (ps, vs, cs, k) \<Rightarrow>
        (let ps' = ps[i * 3 := x, i * 3 + 1 := y, i * 3 + 2 := z];
             theta = rnd k * pi * 2;
             phi = arccos (2 * rnd (k + 1) - 1);
             v = 0.08 + rnd (k + 2) * 0.12;
             vs' = vs @ [(sin phi * cos theta * v, sin phi * sin theta * v, cos phi * v)];
             c = Color (fireworkColors ! nat \<lfloor>rnd (k + 3) * real (length fireworkColors)\<rfloor>);
             cs' = write3 cs i c
         in (ps', vs', cs', k + 4)))"

definition init_particles ::
  "(nat \<Rightarrow> color) \<Rightarrow> rng \<Rightarrow> real \<Rightarrow> real \<Rightarrow> real \<Rightarrow> nat \<Rightarrow> nat \<Rightarrow>
   real list \<times> vec3 list \<times> real list \<times> nat" where
  "init_particles Color rnd x y z n k =
     fold (particle_init Color rnd x y z) [0..<n] (replicate (n * 3) 0, [], replicate (n * 3) 0, k)"

definition createExplosion ::
  "(nat \<Rightarrow> color) \<Rightarrow> rng \<Rightarrow> nat \<Rightarrow> real \<Rightarrow> real \<Rightarrow> real \<Rightarrow> explosion \<times> nat" where
  "createExplosion Color rnd k x y z =
     (case init_particles Color rnd x y z particleCount k of (ps, vs, cs, k') \<Rightarrow>
        (\<lparr> positions = ps, fw_colors = cs, opacity = 1, velocities = vs, life = 1.0,
            decay = 0.01 + rnd k' * 0.005 \<rparr>,
         k' + 1))"

text \<open>
  The spawn at the head of \<open>updateFireworks\<close>. \<open>Math.random()\<close> is the left operand of
  \<open>&&\<close>, so it is drawn whatever the size of the pool.
\<close>

definition spawn_rocket :: "rng \<Rightarrow> real \<Rightarrow> pool \<Rightarrow> pool" where
  "spawn_rocket rnd fireworkRate st =
     (let k = random_calls st in
      if rnd k < fireworkRate \<and> length (fireworks st) < 8
      then (case createRocket rnd (k + 1) of (r, k') \<Rightarrow>
              st\<lparr> fireworks := fireworks st @ [Rocket r], random_calls := k' \<rparr>)
      else st\<lparr> random_calls := k + 1 \<rparr>)"

text \<open>The rocket branch up to its test: \<open>fw.y += fw.speed; positions[1] = fw.y\<close>.\<close>

definition rocket_step :: "rocket \<Rightarrow> rocket" where
  "rocket_step fw =
     (let y' = fw_y fw + fw_speed fw
      in fw\<lparr> fw_y := y', rocket_position := (rocket_position fw)[1 := y'] \<rparr>)"

text \<open>The body of the loop over \<open>j\<close> in the explosion branch.\<close>

definition move_particle :: "nat \<Rightarrow> real list \<times> vec3 list \<Rightarrow> real list \<times> vec3 list" where
  "move_particle j st =
     (case st of (ps, vs) \<Rightarrow>
        (case vs ! j of (vx, vy, vz) \<Rightarrow>
           (let ps1 = ps[j * 3 := ps ! (j * 3) + vx];
                ps2 = ps1[j * 3 + 1 := ps1 ! (j * 3 + 1) + (vy - 0.003)];
                ps3 = ps2[j * 3 + 2 := ps2 ! (j * 3 + 2) + vz]
            in (ps3, vs[j := (vx * 0.97, vy * 0.97, vz * 0.97)]))))"

text \<open>
  The explosion branch up to its test: the particle loop, then
  \<open>fw.life -= fw.decay; fw.points.material.opacity = fw.life\<close>.
\<close>

definition explosion_step :: "explosion \<Rightarrow> explosion" where
  "explosion_step fw =
     (case fold move_particle [0..<length (velocities fw)] (positions fw, velocities fw) of
        (ps, vs) \<Rightarrow>
          (let life' = life fw - decay fw
           in fw\<lparr> positions := ps, velocities := vs, life := life', opacity := life' \<rparr>))"

text \<open>\<open>fireworks.splice(i, 1)\<close>.\<close>

definition splice1 :: "'a list \<Rightarrow> nat \<Rightarrow> 'a list" where
  "splice1 xs i = take i xs @ drop (Suc i) xs"

text \<open>
  The body of the loop of \<open>updateFireworks\<close> at index \<open>i\<close>. Reading \<open>fw.type\<close> of an index
  outside the array throws a \<open>TypeError\<close>.
\<close>

definition update_firework :: "(nat \<Rightarrow> color) \<Rightarrow> rng \<Rightarrow> nat \<Rightarrow> pool \<Rightarrow> error + pool" where
  "update_firework Color rnd i st =
     (if i < length (fireworks st) then
        (case fireworks st ! i of
           Rocket r \<Rightarrow>
             (let fw = rocket_step r in
              if fw_y fw \<ge> targetY fw
              then (case createExplosion Color rnd (random_calls st) (fw_x fw) (fw_y fw) (fw_z fw) of
                      (ex, k') \<Rightarrow>
                        Inr (st\<lparr> fireworks := splice1 (fireworks st) i @ [Explosion ex],
                                 random_calls := k' \<rparr>))
              else Inr (st\<lparr> fireworks := (fireworks st)[i := Rocket fw] \<rparr>))
         | Explosion e \<Rightarrow>
             (let fw = explosion_step e in
              if life fw \<le> 0
              then Inr (st\<lparr> fireworks := splice1 (fireworks st) i \<rparr>)
              else Inr (st\<lparr> fireworks := (fireworks st)[i := Explosion fw] \<rparr>)))
      else Inl TypeError)"

text \<open>\<open>for (let i = fireworks.length - 1; i >= 0; i--)\<close>: \<open>update_loop n\<close> runs the indices
  \<open>n - 1\<close> down to \<open>0\<close>.\<close>

fun update_loop :: "(nat \<Rightarrow> color) \<Rightarrow> rng \<Rightarrow> nat \<Rightarrow> pool \<Rightarrow> error + pool" where
  "update_loop Color rnd 0 st = Inr st"
| "update_loop Color rnd (Suc i) st =
     (case update_firework Color rnd i st of
        Inl e \<Rightarrow> Inl e
      | Inr st' \<Rightarrow> update_loop Color rnd i st')"

definition updateFireworks :: "(nat \<Rightarrow> color) \<Rightarrow> rng \<Rightarrow> real \<Rightarrow> pool \<Rightarrow> error + pool" where
  "updateFireworks Color rnd fireworkRate st =
     (let st1 = spawn_rocket rnd fireworkRate st
      in update_loop Color rnd (length (fireworks st1)) st1)"

text \<open>
  A run of frames; \<open>params.fireworkRate\<close> can be changed between frames, so each frame has
  its own rate. At start-up the pool is empty.
\<close>

fun run_fireworks :: "(nat \<Rightarrow> color) \<Rightarrow> rng \<Rightarrow> real list \<Rightarrow> pool \<Rightarrow> error + pool" where
  "run_fireworks Color rnd [] st = Inr st"
| "run_fireworks Color rnd (rate # rates) st =
     (case updateFireworks Color rnd rate st of
        Inl e \<Rightarrow> Inl e
      | Inr st' \<Rightarrow> run_fireworks Color rnd rates st')"

definition pool_init :: "nat \<Rightarrow> pool" where
  "pool_init k = \<lparr> fireworks = [], random_calls = k \<rparr>"

text \<open>
  An explosion followed on its own: \<open>explosion_after n fw\<close> is the entity after \<open>n\<close> update
  steps, or \<open>None\<close> once a step has removed it from the pool.
\<close>

fun explosion_after :: "nat \<Rightarrow> explosion \<Rightarrow> explosion option" where
  "explosion_after 0 fw = Some fw"
| "explosion_after (Suc n) fw =
     (case explosion_after n fw of
        None \<Rightarrow> None
      | Some fw' \<Rightarrow> (if life (explosion_step fw') \<le> 0 then None else Some (explosion_step fw')))"

text \<open>
  What holds of every entity in the pool: a rocket has the speed and target altitude that
  \<open>createRocket\<close> draws and is still below its target; an explosion has the decay that
  \<open>createExplosion\<close> draws, a life in \<open>(0, 1]\<close> shown as its opacity, and three position
  floats per particle. The pool holds at most eight entities.
\<close>

definition rocket_ok :: "rocket \<Rightarrow> bool" where
  "rocket_ok fw =
     (0.15 \<le> fw_speed fw \<and> fw_speed fw < 0.25 \<and> 8 \<le> targetY fw \<and> targetY fw < 16 \<and>
      0 \<le> fw_y fw \<and> fw_y fw < targetY fw \<and>
      rocket_position fw = [fw_x fw, fw_y fw, fw_z fw])"

definition explosion_ok :: "explosion \<Rightarrow> bool" where
  "explosion_ok fw =
     (0.01 \<le> decay fw \<and> decay fw < 0.015 \<and> 0 < life fw \<and> life fw \<le> 1 \<and>
      opacity fw = life fw \<and> length (positions fw) = length (velocities fw) * 3)"

fun firework_ok :: "firework \<Rightarrow> bool" where
  "firework_ok (Rocket r) = rocket_ok r"
| "firework_ok (Explosion e) = explosion_ok e"

definition pool_ok :: "pool \<Rightarrow> bool" where
  "pool_ok st = (length (fireworks st) \<le> 8 \<and> list_all firework_ok (fireworks st))"

text \<open>
  What one pass of the loop body leaves in the place of an entity: its step, or nothing when
  the body splices it out (a rocket that has reached its target, an explosion whose life is
  spent). \<open>entity_after n\<close> follows an entity through \<open>n\<close> frames in the same way.
\<close>

definition entity_step :: "firework \<Rightarrow> firework option" where
  "entity_step f =
     (case f of
        Rocket r \<Rightarrow>
          (if fw_y (rocket_step r) \<ge> targetY (rocket_step r) then None
           else Some (Rocket (rocket_step r)))
      | Explosion e \<Rightarrow>
          (if life (explosion_step e) \<le> 0 then None else Some (Explosion (explosion_step e))))"

fun entity_after :: "nat \<Rightarrow> firework \<Rightarrow> firework option" where
  "entity_after 0 f = Some f"
| "entity_after (Suc n) f =
     (case entity_after n f of None \<Rightarrow> None | Some f' \<Rightarrow> entity_step f')"

text \<open>
  An entity that has been in the pool for fewer than \<open>m\<close> frames: a rocket, or an explosion
  with the decay \<open>createExplosion\<close> draws whose life is \<open>1\<close> lowered by fewer than \<open>m\<close>
  decays.
\<close>

definition young :: "nat \<Rightarrow> firework \<Rightarrow> bool" where
  "young m f =
     (case f of
        Rocket r \<Rightarrow> True
      | Explosion e \<Rightarrow>
          0.01 \<le> decay e \<and> decay e < 0.015 \<and> (\<exists>n\<in>{..<m}. life e = 1 - real n * decay e))"

section \<open>The highlight interaction (the raycaster block of \<open>animate\<close>)\<close>

text \<open>
  \<open>ornaments.instanceColor\<close> and \<open>originalColors\<close> are flat arrays of three floats per
  instance. \<open>setColorAt(i, c)\<close> writes the three components of \<open>c\<close> at \<open>i * 3\<close>; a write
  outside a typed array is ignored, as \<open>list_update\<close> outside a list is. The result of the
  hit test is \<open>None\<close> for an empty intersection list and \<open>Some instanceId\<close> otherwise.
\<close>

record highlight =
  instanceColor :: "real list"
  hoveredInstanceId :: int

definition whiteColor :: "(nat \<Rightarrow> color) \<Rightarrow> color" where
  "whiteColor Color = Color 0xffffff"

definition setColorAt :: "real list \<Rightarrow> nat \<Rightarrow> color \<Rightarrow> real list" where
  "setColorAt arr i c = write3 arr i c"

text \<open>The colour read at instance \<open>i\<close> of a flat array.\<close>

definition color_at :: "real list \<Rightarrow> nat \<Rightarrow> color" where
  "color_at arr i = (arr ! (i * 3), arr ! (i * 3 + 1), arr ! (i * 3 + 2))"

definition highlight_step ::
  "(nat \<Rightarrow> color) \<Rightarrow> real list \<Rightarrow> nat option \<Rightarrow> highlight \<Rightarrow> highlight" where
  "highlight_step Color orig intersection s =
     (case intersection of
        Some instanceId \<Rightarrow>
          (if int instanceId \<noteq> hoveredInstanceId s then
             (let cols1 = (if hoveredInstanceId s \<noteq> - 1
                           then setColorAt (instanceColor s) (nat (hoveredInstanceId s))
                                  (color_at orig (nat (hoveredInstanceId s)))
                           else instanceColor s);
                  cols2 = setColorAt cols1 instanceId (whiteColor Color)
              in \<lparr> instanceColor = cols2, hoveredInstanceId = int instanceId \<rparr>)
           else s)
      | None \<Rightarrow>
          (if hoveredInstanceId s \<noteq> - 1
           then \<lparr> instanceColor = setColorAt (instanceColor s) (nat (hoveredInstanceId s))
                                    (color_at orig (nat (hoveredInstanceId s))),
                  hoveredInstanceId = - 1 \<rparr>
           else s))"

text \<open>
  At start-up \<open>instanceColor\<close> is \<open>new Float32Array(colors)\<close> and no instance is hovered;
  \<open>highlight_frames\<close> runs one hit-test result per frame.
\<close>

definition highlight_init :: "ornament_group \<Rightarrow> highlight" where
  "highlight_init g = \<lparr> instanceColor = colors g, hoveredInstanceId = - 1 \<rparr>"

fun highlight_frames ::
  "(nat \<Rightarrow> color) \<Rightarrow> real list \<Rightarrow> nat option list \<Rightarrow> highlight \<Rightarrow> highlight" where
  "highlight_frames Color orig [] s = s"
| "highlight_frames Color orig (h # hs) s =
     highlight_frames Color orig hs (highlight_step Color orig h s)"

section \<open>Properties of the shader and of the assembly animation\<close>

text \<open>
  Claim C8. The displacement factor of the injected vertex code is
  \<open>1 - pow(smoothstep(0, 1, uProgress), 0.5)\<close>; it is exactly \<open>1\<close> at progress \<open>0\<close>
  (fully dispersed) and exactly \<open>0\<close> at progress \<open>1\<close> (fully assembled).
\<close>

theorem explodeFactor_exact:
  "explodeFactor p = 1 - (smoothstep 0 1 p) powr 0.5 \<and> explodeFactor 0 = 1 \<and> explodeFactor 1 = 0"
  by (simp add: explodeFactor_def smoothstep_def clamp_def Let_def)

lemma explosionAcceleration_val: "explosionAcceleration = 1 / 4000" by (simp add: explosionAcceleration_def)

lemma frames_Suc: "assembly_frames off (Suc n) = animate_assembly off (assembly_frames off n)"
  by (simp add: assembly_frames_def)

lemma animate_below:
  "uProgress s < 1 \<Longrightarrow> uProgress s + (explosionSpeed s + explosionAcceleration) < 1 \<Longrightarrow>
   uProgress (animate_assembly off s) = uProgress s + (explosionSpeed s + explosionAcceleration) \<and>
   explosionSpeed (animate_assembly off s) = explosionSpeed s + explosionAcceleration"
  by (simp add: animate_assembly_def Let_def)

lemma animate_reach:
  "uProgress s < 1 \<Longrightarrow> uProgress s + (explosionSpeed s + explosionAcceleration) \<ge> 1 \<Longrightarrow>
   uProgress (animate_assembly off s) = 1"
  by (simp add: animate_assembly_def Let_def)

lemma assembly_closed_form: "n \<le> 85 \<Longrightarrow> uProgress (assembly_frames off n) = real n / 1000 + (real n * real n + real n) / 8000
   \<and> explosionSpeed (assembly_frames off n) = 1 / 1000 + real n / 4000"
proof (induction n)
  case 0 show ?case by (simp add: assembly_frames_def assembly_init_def)
next
  case (Suc n)
  then have le: "n \<le> 84" by simp
  with Suc have IH: "uProgress (assembly_frames off n) = real n / 1000 + (real n * real n + real n) / 8000"
      "explosionSpeed (assembly_frames off n) = 1 / 1000 + real n / 4000" by simp_all
  have step: "assembly_frames off (Suc n) = animate_assembly off (assembly_frames off n)"
    by (simp add: assembly_frames_def)
  have r: "real n \<le> 84" using le by simp
  have "real n * real n \<le> 84 * 84" using r by (intro mult_mono) simp_all
  then have sq: "real n * real n \<le> 7056" by simp
  have lt1: "uProgress (assembly_frames off n) < 1" unfolding IH using r sq by argo
  have lt2: "uProgress (assembly_frames off n) + (explosionSpeed (assembly_frames off n) + explosionAcceleration) < 1"
    unfolding IH explosionAcceleration_val using r sq by argo
  have e1: "uProgress (assembly_frames off n) + (explosionSpeed (assembly_frames off n) + explosionAcceleration)
     = real (Suc n) / 1000 + (real (Suc n) * real (Suc n) + real (Suc n)) / 8000"
    unfolding IH explosionAcceleration_val by (simp add: field_simps)
  have e2: "explosionSpeed (assembly_frames off n) + explosionAcceleration = 1 / 1000 + real (Suc n) / 4000"
    unfolding IH explosionAcceleration_val by (simp add: field_simps)
  show ?case unfolding step using animate_below[OF lt1 lt2] e1 e2 by (simp only:)
qed

lemma frames_at_86: "uProgress (assembly_frames off 86) = 1"
proof -
  have s: "assembly_frames off (Suc 85) = animate_assembly off (assembly_frames off 85)"
    by (rule frames_Suc)
  have s': "assembly_frames off 86 = animate_assembly off (assembly_frames off 85)" using s by simp
  have c: "uProgress (assembly_frames off 85) = 799 / 800" "explosionSpeed (assembly_frames off 85) = 89 / 4000"
    using assembly_closed_form[of 85 off] by simp_all
  show ?thesis unfolding s' by (rule animate_reach) (simp_all add: c explosionAcceleration_val)
qed

lemma animate_settled: "uProgress s = 1 \<Longrightarrow> animate_assembly off s = s"
  by (simp add: animate_assembly_def)

lemma frames_after_86: "n \<ge> 86 \<Longrightarrow> assembly_frames off n = assembly_frames off 86"
proof (induction n)
  case 0 then show ?case by simp
next
  case (Suc n)
  show ?case
  proof (cases "Suc n = 86")
    case True then show ?thesis by simp
  next
    case False
    with Suc.prems have "n \<ge> 86" by simp
    with Suc.IH have e: "assembly_frames off n = assembly_frames off 86" by simp
    have "assembly_frames off (Suc n) = animate_assembly off (assembly_frames off n)"
      by (simp add: assembly_frames_def)
    then show ?thesis using e animate_settled[OF frames_at_86, of off] by simp
  qed
qed

lemma animate_mono:
  "uProgress s \<le> 1 \<Longrightarrow> 0 \<le> explosionSpeed s \<Longrightarrow>
   uProgress s \<le> uProgress (animate_assembly off s) \<and> uProgress (animate_assembly off s) \<le> 1
   \<and> 0 \<le> explosionSpeed (animate_assembly off s)"
  by (simp add: animate_assembly_def Let_def explosionAcceleration_val)

lemma frames_inv: "uProgress (assembly_frames off n) \<le> 1 \<and> 0 \<le> explosionSpeed (assembly_frames off n)"
proof (induction n)
  case 0 show ?case by (simp add: assembly_frames_def assembly_init_def)
next
  case (Suc n) then show ?case unfolding frames_Suc using animate_mono by blast
qed

lemma frames_frozen: "uProgress (assembly_frames off n) = 1 \<Longrightarrow> n \<le> m \<Longrightarrow> assembly_frames off m = assembly_frames off n"
proof (induction m)
  case 0 then show ?case by simp
next
  case (Suc m)
  show ?case
  proof (cases "n = Suc m")
    case True then show ?thesis by simp
  next
    case False
    with Suc.prems have "n \<le> m" by simp
    with Suc have e: "assembly_frames off m = assembly_frames off n" by simp
    show ?thesis unfolding frames_Suc e using Suc.prems(1) by (rule animate_settled)
  qed
qed

text \<open>
  Claim C5. Over the frames from start-up, the assembly progress never decreases from one
  frame to the next, is at most \<open>1\<close> at the end of every frame, is below \<open>1\<close> for the
  first 85 frames and exactly \<open>1\<close> from frame 86 on, and once it is \<open>1\<close> no later frame
  changes the assembly state at all.
\<close>

theorem assembly_progress_monotone_reaches_one:
  "uProgress (assembly_frames off n) \<le> uProgress (assembly_frames off (Suc n))
   \<and> uProgress (assembly_frames off n) \<le> 1
   \<and> (n < 86 \<longrightarrow> uProgress (assembly_frames off n) < 1)
   \<and> (86 \<le> n \<longrightarrow> uProgress (assembly_frames off n) = 1)
   \<and> (uProgress (assembly_frames off n) = 1 \<longrightarrow>
        (\<forall>m\<ge>n. assembly_frames off m = assembly_frames off n))"
proof (intro conjI impI allI)
  show "uProgress (assembly_frames off n) \<le> uProgress (assembly_frames off (Suc n))"
    unfolding frames_Suc using frames_inv animate_mono by blast
  show "uProgress (assembly_frames off n) \<le> 1" using frames_inv by blast
  show "uProgress (assembly_frames off n) < 1" if "n < 86"
  proof -
    from that have le: "n \<le> 85" by simp
    then have r: "real n \<le> 85" by simp
    have "real n * real n \<le> 85 * 85" using r by (intro mult_mono) simp_all
    then have sq: "real n * real n \<le> 7225" by simp
    have "uProgress (assembly_frames off n) = real n / 1000 + (real n * real n + real n) / 8000"
      using assembly_closed_form[OF le] by blast
    then show ?thesis using r sq by argo
  qed
  show "uProgress (assembly_frames off n) = 1" if "86 \<le> n"
    using frames_after_86[OF that] frames_at_86 by simp
  show "assembly_frames off m = assembly_frames off n"
    if "uProgress (assembly_frames off n) = 1" "n \<le> m" for m
    using that by (rule frames_frozen)
qed

text \<open>
  The start-up state with the star offset \<open>(1, 2, 3)\<close>: below \<open>1\<close> at frame 85, exactly \<open>1\<close> at frame 86,
  and unchanged at frame 90.
\<close>

theorem assembly_progress_witness:
  "(85::nat) < 86 \<and> uProgress (assembly_frames (1, 2, 3) 85) < 1
   \<and> (86::nat) \<le> 86 \<and> uProgress (assembly_frames (1, 2, 3) 86) = 1
   \<and> assembly_frames (1, 2, 3) 90 = assembly_frames (1, 2, 3) 86"
proof -
  note a = assembly_progress_monotone_reaches_one[of "(1, 2, 3)" 85]
  note b = assembly_progress_monotone_reaches_one[of "(1, 2, 3)" 86]
  have l: "(85::nat) < 86" and m: "(86::nat) \<le> 86" and k: "(86::nat) \<le> 90" by simp_all
  from a l have 1: "uProgress (assembly_frames (1, 2, 3) 85) < 1" by blast
  from b m have 2: "uProgress (assembly_frames (1, 2, 3) 86) = 1" by blast
  from b 2 k have 3: "assembly_frames (1, 2, 3) 90 = assembly_frames (1, 2, 3) 86" by blast
  from l m 1 2 3 show ?thesis by blast
qed

section \<open>Properties of the instance groups\<close>

lemma leaf_fold:
  "n \<le> length mesh \<Longrightarrow>
   fold (leaf_step N rnd) [0..<n] (mesh, k) = (mesh', k') \<Longrightarrow>
   length mesh' = length mesh \<and> k' = k + 6 * n \<and>
   (\<forall>i<n. mesh' ! i = leaf_instance N rnd i (k + 6 * i)) \<and>
   (\<forall>i\<ge>n. mesh' ! i = mesh ! i)"
proof (induction n arbitrary: mesh' k')
  case 0 then show ?case by simp
next
  case (Suc n)
  obtain m1 k1 where f: "fold (leaf_step N rnd) [0..<n] (mesh, k) = (m1, k1)" by (cases "fold (leaf_step N rnd) [0..<n] (mesh, k)")
  from Suc.prems have le: "n \<le> length mesh" by simp
  note IH = Suc.IH[OF le f]
  from Suc.prems(2) have "leaf_step N rnd n (fold (leaf_step N rnd) [0..<n] (mesh, k)) = (mesh', k')"
    by simp
  then have e: "mesh' = m1[n := leaf_instance N rnd n k1]" "k' = k1 + 6"
    unfolding f by (simp_all add: leaf_step_def)
  show ?case using IH Suc.prems(1) unfolding e
    by (auto simp: nth_list_update less_Suc_eq)
qed

lemma radial_distance_polar: "0 \<le> d \<Longrightarrow> radial_distance (cos a * d, h, sin a * d) = d"
proof -
  assume d: "0 \<le> d"
  have "(cos a * d)\<^sup>2 + (sin a * d)\<^sup>2 = ((cos a)\<^sup>2 + (sin a)\<^sup>2) * d\<^sup>2"
    by (simp only: power_mult_distrib distrib_right)
  also have "\<dots> = d\<^sup>2" by (simp only: sin_cos_squared_add2 mult_1_left)
  finally show ?thesis using d by (simp add: radial_distance_def)
qed

lemma leaf_dist_bounds:
  assumes "i < N" "0 \<le> u" "u < 1"
  shows "0.5 * ((1 - leaf_ratio N i) * treeRadius) \<le> leaf_dist N i u"
    and "leaf_dist N i u \<le> (1 - leaf_ratio N i) * treeRadius"
    and "0 \<le> leaf_dist N i u"
proof -
  have "leaf_ratio N i < 1" using assms(1) by (simp add: leaf_ratio_def)
  then have r: "0 < (1 - leaf_ratio N i) * treeRadius" by (simp add: treeRadius_def)
  have e: "leaf_dist N i u = ((1 - leaf_ratio N i) * treeRadius) * (0.5 + u * 0.5)"
    by (simp add: leaf_dist_def Let_def)
  have a: "0.5 \<le> 0.5 + u * 0.5" "0.5 + u * 0.5 \<le> 1" using assms by simp_all
  show "0.5 * ((1 - leaf_ratio N i) * treeRadius) \<le> leaf_dist N i u"
    unfolding e using mult_left_mono[OF a(1), of "(1 - leaf_ratio N i) * treeRadius"] r by (simp add: mult.commute)
  show "leaf_dist N i u \<le> (1 - leaf_ratio N i) * treeRadius"
    unfolding e using mult_left_mono[OF a(2), of "(1 - leaf_ratio N i) * treeRadius"] r by simp
  show "0 \<le> leaf_dist N i u" unfolding e using r a by simp
qed

lemma build_tree_nth:
  assumes "i < N"
  shows "length (fst (build_tree N rnd k)) = N"
    and "fst (build_tree N rnd k) ! i = leaf_instance N rnd i (k + 6 * i)"
proof -
  obtain m k' where f: "build_tree N rnd k = (m, k')" by (cases "build_tree N rnd k")
  then have "fold (leaf_step N rnd) [0..<N] (replicate N identity_instance, k) = (m, k')"
    by (simp add: build_tree_def)
  from leaf_fold[OF _ this] assms show "length (fst (build_tree N rnd k)) = N"
    and "fst (build_tree N rnd k) ! i = leaf_instance N rnd i (k + 6 * i)" unfolding f by simp_all
qed

text \<open>
  Claim C3, as the code has it. For every index \<open>i < N\<close> the foliage loop writes instance
  \<open>i\<close> at height \<open>(i/N) * H\<close>, at a distance from the axis within \<open>[0.5 * r, r]\<close> for
  \<open>r = (1 - i/N) * R\<close>, and at the angle \<open>(i/N) * 40 * pi\<close> plus a jitter in \<open>[0, 0.5)\<close>:
  twenty turns of the spiral over the tree, not forty.
\<close>

theorem foliage_cone_spiral:
  assumes "rng_ok rnd" and "i < N"
  shows "length (fst (build_tree N rnd k)) = N \<and>
    (let p = position (fst (build_tree N rnd k) ! i);
         ratio = real i / real N;
         r = (1 - ratio) * treeRadius;
         jitter = rnd (k + 6 * i) * 0.5;
         angle = ratio * 40 * pi + jitter;
         dist = radial_distance p
     in height p = ratio * treeHeight \<and> 0.5 * r \<le> dist \<and> dist \<le> r \<and>
        0 \<le> jitter \<and> jitter < 0.5 \<and>
        p = (cos angle * dist, ratio * treeHeight, sin angle * dist))"
proof -
  from assms(1) have u: "0 \<le> rnd (k + 6 * i)" "rnd (k + 6 * i) < 1"
     "0 \<le> rnd (k + 6 * i + 1)" "rnd (k + 6 * i + 1) < 1" by (simp_all add: rng_ok_def)
  note b = leaf_dist_bounds[OF assms(2) u(3,4)]
  have p: "position (leaf_instance N rnd i (k + 6 * i)) =
     (cos (leaf_angle N i (rnd (k + 6 * i))) * leaf_dist N i (rnd (k + 6 * i + 1)),
      leaf_ratio N i * treeHeight,
      sin (leaf_angle N i (rnd (k + 6 * i))) * leaf_dist N i (rnd (k + 6 * i + 1)))"
    by (simp add: leaf_instance_def Let_def)
  have rd: "radial_distance (position (leaf_instance N rnd i (k + 6 * i))) = leaf_dist N i (rnd (k + 6 * i + 1))"
    unfolding p by (rule radial_distance_polar[OF b(3)])
  have an: "leaf_angle N i (rnd (k + 6 * i)) = real i / real N * 40 * pi + rnd (k + 6 * i) * 0.5"
    by (simp add: leaf_angle_def leaf_ratio_def)
  show ?thesis
    unfolding build_tree_nth[OF assms(2)] Let_def rd
    using b u(1,2) by (simp add: p an height_def leaf_ratio_def)
qed

text \<open>
  A tree of two leaves with every draw \<open>0\<close>: the second leaf lies at height \<open>6\<close>, between
  \<open>1\<close> and \<open>2\<close> from the axis.
\<close>

theorem foliage_cone_spiral_witness:
  "rng_ok (\<lambda>k. 0) \<and> (1::nat) < 2 \<and> length (fst (build_tree 2 (\<lambda>k. 0) 0)) = 2 \<and>
   height (position (fst (build_tree 2 (\<lambda>k. 0) 0) ! 1)) = 6 \<and>
   1 \<le> radial_distance (position (fst (build_tree 2 (\<lambda>k. 0) 0) ! 1)) \<and>
   radial_distance (position (fst (build_tree 2 (\<lambda>k. 0) 0) ! 1)) \<le> 2"
proof -
  have r: "rng_ok (\<lambda>k. 0)" by (simp add: rng_ok_def)
  have l: "(1::nat) < 2" by simp
  show ?thesis using r l foliage_cone_spiral[OF r l, of 0]
    by (simp add: Let_def treeHeight_def treeRadius_def)
qed

text \<open>
  The angle of the claim as stated, \<open>(i/N) * 40 * 2 * pi\<close> plus a small jitter, is not the
  code's: at index 375 of 3000 with all draws \<open>0\<close> the code's angle is \<open>5 * pi\<close>, which is
  \<open>5 * pi\<close> below the stated one, and the instance lies at \<open>x = -1.75\<close>, opposite to the
  point \<open>x = 1.75\<close> of the stated angle.
\<close>

theorem foliage_angle_counterexample:
  "rng_ok (\<lambda>k. 0) \<and>
   leaf_angle 3000 375 0 = 5 * pi \<and>
   real 375 / real 3000 * 40 * (2 * pi) = 10 * pi \<and>
   leaf_angle 3000 375 0 - real 375 / real 3000 * 40 * (2 * pi) \<le> - 10 \<and>
   position (fst (build_tree 3000 (\<lambda>k. 0) 0) ! 375) = (- 1.75, 1.5, 0) \<and>
   (cos (real 375 / real 3000 * 40 * (2 * pi)) * 1.75, 1.5, sin (real 375 / real 3000 * 40 * (2 * pi)) * 1.75)
     = (1.75, 1.5, 0)"
proof -
  have r: "rng_ok (\<lambda>k. 0)" by (simp add: rng_ok_def)
  have a: "leaf_angle 3000 375 0 = 5 * pi" by (simp add: leaf_angle_def leaf_ratio_def)
  have c5: "cos (5 * pi) = - 1" using cos_npi[of 5] by (simp add: mult.commute)
  have s5: "sin (5 * pi) = 0" using sin_npi[of 5] by (simp add: mult.commute)
  have c10: "cos (10 * pi) = 1" using cos_npi[of 10] by (simp add: mult.commute)
  have s10: "sin (10 * pi) = 0" using sin_npi[of 10] by (simp add: mult.commute)
  have d: "leaf_dist 3000 375 0 = 1.75" by (simp add: leaf_dist_def leaf_ratio_def treeRadius_def)
  have l: "(375::nat) < 3000" by simp
  have p: "position (fst (build_tree 3000 (\<lambda>k. 0) 0) ! 375) = (- 1.75, 1.5, 0)"
    unfolding build_tree_nth(2)[OF l]
    by (simp add: leaf_instance_def Let_def a d c5 s5 leaf_ratio_def treeHeight_def)
  have lt: "leaf_angle 3000 375 0 - real 375 / real 3000 * 40 * (2 * pi) \<le> - 10"
    unfolding a using pi_ge_two by simp
  have e: "real 375 / real 3000 * 40 * (2 * pi) = 10 * pi" by simp
  show ?thesis using r a lt p unfolding e by (simp add: c10 s10)
qed

lemma ornament_fold:
  "n \<le> length (ornaments_mesh g) \<Longrightarrow>
   length (ornaments_mesh (fold (ornament_step Color rnd) [0..<n] g)) = length (ornaments_mesh g) \<and>
   draws (fold (ornament_step Color rnd) [0..<n] g) = draws g + 4 * n \<and>
   (\<forall>i<n. ornaments_mesh (fold (ornament_step Color rnd) [0..<n] g) ! i = ornament_instance rnd (draws g + 4 * i)) \<and>
   (\<forall>i\<ge>n. ornaments_mesh (fold (ornament_step Color rnd) [0..<n] g) ! i = ornaments_mesh g ! i)"
proof (induction n)
  case 0 then show ?case by simp
next
  case (Suc n)
  define g1 where "g1 = fold (ornament_step Color rnd) [0..<n] g"
  have e: "fold (ornament_step Color rnd) [0..<Suc n] g = ornament_step Color rnd n g1"
    by (simp add: g1_def)
  from Suc have IH: "length (ornaments_mesh g1) = length (ornaments_mesh g)"
     "draws g1 = draws g + 4 * n"
     "\<forall>i<n. ornaments_mesh g1 ! i = ornament_instance rnd (draws g + 4 * i)"
     "\<forall>i\<ge>n. ornaments_mesh g1 ! i = ornaments_mesh g ! i" by (simp_all add: g1_def)
  show ?case unfolding e using IH Suc.prems
    by (auto simp: ornament_step_def Let_def nth_list_update less_Suc_eq)
qed

lemma box_fold:
  "n \<le> length (boxes_mesh g) \<Longrightarrow>
   length (boxes_mesh (fold (box_step Color rnd) [0..<n] g)) = length (boxes_mesh g) \<and>
   box_draws (fold (box_step Color rnd) [0..<n] g) = box_draws g + 7 * n \<and>
   (\<forall>i<n. boxes_mesh (fold (box_step Color rnd) [0..<n] g) ! i = box_instance rnd (box_draws g + 7 * i)) \<and>
   (\<forall>i\<ge>n. boxes_mesh (fold (box_step Color rnd) [0..<n] g) ! i = boxes_mesh g ! i)"
proof (induction n)
  case 0 then show ?case by simp
next
  case (Suc n)
  define g1 where "g1 = fold (box_step Color rnd) [0..<n] g"
  have e: "fold (box_step Color rnd) [0..<Suc n] g = box_step Color rnd n g1"
    by (simp add: g1_def)
  from Suc have IH: "length (boxes_mesh g1) = length (boxes_mesh g)"
     "box_draws g1 = box_draws g + 7 * n"
     "\<forall>i<n. boxes_mesh g1 ! i = box_instance rnd (box_draws g + 7 * i)"
     "\<forall>i\<ge>n. boxes_mesh g1 ! i = boxes_mesh g ! i" by (simp_all add: g1_def)
  show ?case unfolding e using IH Suc.prems
    by (auto simp: box_step_def Let_def nth_list_update less_Suc_eq)
qed

lemma build_ornaments_mesh:
  "length (ornaments_mesh (build_ornaments Color N rnd k)) = N"
  "i < N \<Longrightarrow> ornaments_mesh (build_ornaments Color N rnd k) ! i = ornament_instance rnd (k + 4 * i)"
  using ornament_fold[of N "\<lparr> ornaments_mesh = replicate N identity_instance, colors = [],
         originalColors = replicate (N * 3) 0, draws = k \<rparr>" Color rnd]
  by (simp_all add: build_ornaments_def)

lemma build_boxes_mesh:
  "length (boxes_mesh (build_boxes Color N rnd k)) = N"
  "i < N \<Longrightarrow> boxes_mesh (build_boxes Color N rnd k) ! i = box_instance rnd (k + 7 * i)"
  using box_fold[of N "\<lparr> boxes_mesh = replicate N identity_instance, boxColors = [], box_draws = k \<rparr>" Color rnd]
  by (simp_all add: build_boxes_def)

lemma ornament_instance_position:
  assumes "0 \<le> rnd k" "rnd k < 1"
  shows "height (position (ornament_instance rnd k)) = rnd k * treeHeight"
    and "radial_distance (position (ornament_instance rnd k)) = (1 - rnd k) * treeRadius"
proof -
  have p: "position (ornament_instance rnd k) =
    (cos (rnd (k + 1) * pi * 2) * ((1 - rnd k) * treeRadius), rnd k * treeHeight,
     sin (rnd (k + 1) * pi * 2) * ((1 - rnd k) * treeRadius))"
    by (simp add: ornament_instance_def Let_def)
  show "height (position (ornament_instance rnd k)) = rnd k * treeHeight"
    unfolding p by (simp add: height_def)
  have "0 \<le> (1 - rnd k) * treeRadius" using assms by (simp add: treeRadius_def)
  then show "radial_distance (position (ornament_instance rnd k)) = (1 - rnd k) * treeRadius"
    unfolding p by (rule radial_distance_polar)
qed

lemma box_instance_position:
  assumes "0 \<le> rnd k" "rnd k < 1"
  shows "height (position (box_instance rnd k)) = rnd k * treeHeight"
    and "radial_distance (position (box_instance rnd k)) = (1 - rnd k) * treeRadius + 0.2"
proof -
  have p: "position (box_instance rnd k) =
    (cos (rnd (k + 1) * pi * 2) * ((1 - rnd k) * treeRadius + 0.2), rnd k * treeHeight,
     sin (rnd (k + 1) * pi * 2) * ((1 - rnd k) * treeRadius + 0.2))"
    by (simp add: box_instance_def Let_def)
  show "height (position (box_instance rnd k)) = rnd k * treeHeight"
    unfolding p by (simp add: height_def)
  have "0 \<le> (1 - rnd k) * treeRadius" using assms by (simp add: treeRadius_def)
  then have "0 \<le> (1 - rnd k) * treeRadius + 0.2" by simp
  then show "radial_distance (position (box_instance rnd k)) = (1 - rnd k) * treeRadius + 0.2"
    unfolding p by (rule radial_distance_polar)
qed

lemma build_tree_length: "length (fst (build_tree N rnd k)) = N"
proof -
  obtain m k' where f: "build_tree N rnd k = (m, k')" by (cases "build_tree N rnd k")
  then have "fold (leaf_step N rnd) [0..<N] (replicate N identity_instance, k) = (m, k')"
    by (simp add: build_tree_def)
  from leaf_fold[OF _ this] show ?thesis unfolding f by simp
qed

lemma leaf_instance_position:
  assumes "i < N" "0 \<le> rnd (k + 1)" "rnd (k + 1) < 1"
  shows "height (position (leaf_instance N rnd i k)) = real i / real N * treeHeight"
    and "radial_distance (position (leaf_instance N rnd i k)) = leaf_dist N i (rnd (k + 1))"
proof -
  have p: "position (leaf_instance N rnd i k) =
     (cos (leaf_angle N i (rnd k)) * leaf_dist N i (rnd (k + 1)),
      leaf_ratio N i * treeHeight,
      sin (leaf_angle N i (rnd k)) * leaf_dist N i (rnd (k + 1)))"
    by (simp add: leaf_instance_def Let_def)
  show "height (position (leaf_instance N rnd i k)) = real i / real N * treeHeight"
    unfolding p by (simp add: height_def leaf_ratio_def)
  show "radial_distance (position (leaf_instance N rnd i k)) = leaf_dist N i (rnd (k + 1))"
    unfolding p by (rule radial_distance_polar[OF leaf_dist_bounds(3)[OF assms]])
qed

text \<open>
  Claim C4, as the code has it. For every \<open>N\<close> each population loop fills a group of
  exactly \<open>N\<close> instances. A foliage instance \<open>i\<close> lies at height \<open>(i/N) * H\<close> and at a
  distance within \<open>[0.5 * r, r]\<close> of the axis, \<open>r = (1 - i/N) * R\<close>. An ornament or gift
  box draws \<open>ratio\<close> in \<open>[0, 1)\<close> and lies at height \<open>ratio * H\<close>; an ornament lies at
  distance \<open>(1 - ratio) * R\<close> from the axis, on the cone, and a gift box at distance
  \<open>(1 - ratio) * R + 0.2\<close>, just outside it.
\<close>

theorem instance_groups_populated:
  assumes "rng_ok rnd"
  shows "length (fst (build_tree N rnd k)) = N \<and>
         length (ornaments_mesh (build_ornaments Color N rnd k)) = N \<and>
         length (boxes_mesh (build_boxes Color N rnd k)) = N \<and>
         (\<forall>i<N. let ratio = real i / real N;
                     r = (1 - ratio) * treeRadius;
                     p = position (fst (build_tree N rnd k) ! i)
                 in height p = ratio * treeHeight \<and>
                    0.5 * r \<le> radial_distance p \<and> radial_distance p \<le> r) \<and>
         (\<forall>i<N. let ratio = rnd (k + 4 * i);
                     p = position (ornaments_mesh (build_ornaments Color N rnd k) ! i)
                 in 0 \<le> ratio \<and> ratio < 1 \<and> height p = ratio * treeHeight \<and>
                    radial_distance p = (1 - ratio) * treeRadius) \<and>
         (\<forall>i<N. let ratio = rnd (k + 7 * i);
                     p = position (boxes_mesh (build_boxes Color N rnd k) ! i)
                 in 0 \<le> ratio \<and> ratio < 1 \<and> height p = ratio * treeHeight \<and>
                    radial_distance p = (1 - ratio) * treeRadius + 0.2)"
proof -
  have u: "\<And>j. 0 \<le> rnd j" "\<And>j. rnd j < 1" using assms by (simp_all add: rng_ok_def)
  have t: "let ratio = real i / real N;
               r = (1 - ratio) * treeRadius;
               p = position (fst (build_tree N rnd k) ! i)
           in height p = ratio * treeHeight \<and>
              0.5 * r \<le> radial_distance p \<and> radial_distance p \<le> r" if i: "i < N" for i
    unfolding Let_def build_tree_nth(2)[OF i] leaf_instance_position[OF i u]
    using leaf_dist_bounds(1,2)[OF i u, of "k + 6 * i + 1"] by (simp add: leaf_ratio_def)
  have o: "\<forall>i<N. let ratio = rnd (k + 4 * i);
                     p = position (ornaments_mesh (build_ornaments Color N rnd k) ! i)
                 in 0 \<le> ratio \<and> ratio < 1 \<and> height p = ratio * treeHeight \<and>
                    radial_distance p = (1 - ratio) * treeRadius"
    using u ornament_instance_position[OF u] by (simp add: build_ornaments_mesh Let_def)
  have b: "\<forall>i<N. let ratio = rnd (k + 7 * i);
                     p = position (boxes_mesh (build_boxes Color N rnd k) ! i)
                 in 0 \<le> ratio \<and> ratio < 1 \<and> height p = ratio * treeHeight \<and>
                    radial_distance p = (1 - ratio) * treeRadius + 0.2"
    using u box_instance_position[OF u] by (simp add: build_boxes_mesh Let_def)
  from t o b show ?thesis
    by (simp add: build_tree_length build_ornaments_mesh(1) build_boxes_mesh(1))
qed

text \<open>
  Groups of one with every draw \<open>1/2\<close>: the ornament lies at height \<open>6\<close> and distance \<open>2\<close>,
  the gift box at distance \<open>2.2\<close>.
\<close>

theorem instance_groups_witness:
  "rng_ok (\<lambda>k. 1 / 2) \<and>
   length (ornaments_mesh (build_ornaments hex_color 1 (\<lambda>k. 1 / 2) 0)) = 1 \<and>
   height (position (ornaments_mesh (build_ornaments hex_color 1 (\<lambda>k. 1 / 2) 0) ! 0)) = 6 \<and>
   radial_distance (position (ornaments_mesh (build_ornaments hex_color 1 (\<lambda>k. 1 / 2) 0) ! 0)) = 2 \<and>
   radial_distance (position (boxes_mesh (build_boxes hex_color 1 (\<lambda>k. 1 / 2) 0) ! 0)) = 2.2"
proof -
  have r: "rng_ok (\<lambda>k. 1 / 2)" by (simp add: rng_ok_def)
  show ?thesis using r instance_groups_populated[OF r, where Color = hex_color and N = 1 and k = 0]
    by (simp add: Let_def treeHeight_def treeRadius_def)
qed

text \<open>
  A gift box is not on the cone surface: with every draw \<open>1/2\<close> the single box of a group
  of one lies at distance \<open>2.2\<close> from the axis, while \<open>(1 - ratio) * R = 2\<close>.
\<close>

theorem gift_box_radius_counterexample:
  "rng_ok (\<lambda>k. 1 / 2) \<and>
   position (boxes_mesh (build_boxes hex_color 1 (\<lambda>k. 1 / 2) 0) ! 0) = (- 2.2, 6, 0) \<and>
   radial_distance (position (boxes_mesh (build_boxes hex_color 1 (\<lambda>k. 1 / 2) 0) ! 0)) = 2.2 \<and>
   (1 - 1 / 2) * treeRadius = 2 \<and>
   radial_distance (position (boxes_mesh (build_boxes hex_color 1 (\<lambda>k. 1 / 2) 0) ! 0))
     \<noteq> (1 - 1 / 2) * treeRadius"
proof -
  have r: "rng_ok (\<lambda>k. 1 / 2)" by (simp add: rng_ok_def)
  have p: "position (boxes_mesh (build_boxes hex_color 1 (\<lambda>k. 1 / 2) 0) ! 0) = (- 2.2, 6, 0)"
    by (simp add: build_boxes_mesh box_instance_def Let_def treeHeight_def treeRadius_def)
  have d: "radial_distance (- 2.2, 6, 0) = 2.2"
    by (simp add: radial_distance_def)
  show ?thesis using r unfolding p d by (simp add: treeRadius_def)
qed

section \<open>Properties of the fireworks\<close>

lemma move_fold:
  "n \<le> length vs \<Longrightarrow> fold move_particle [0..<n] (ps, vs) = (ps', vs') \<Longrightarrow>
   length ps' = length ps \<and> length vs' = length vs \<and>
   (\<forall>j<n. vs' ! j = (fst (vs ! j) * 0.97, fst (snd (vs ! j)) * 0.97, snd (snd (vs ! j)) * 0.97)) \<and>
   (\<forall>j\<ge>n. vs' ! j = vs ! j) \<and>
   (\<forall>j<n. j * 3 + 2 < length ps \<longrightarrow>
       ps' ! (j * 3) = ps ! (j * 3) + fst (vs ! j) \<and>
       ps' ! (j * 3 + 1) = ps ! (j * 3 + 1) + (fst (snd (vs ! j)) - 0.003) \<and>
       ps' ! (j * 3 + 2) = ps ! (j * 3 + 2) + snd (snd (vs ! j))) \<and>
   (\<forall>m\<ge>n * 3. ps' ! m = ps ! m)"
proof (induction n arbitrary: ps' vs')
  case 0 then show ?case by simp
next
  case (Suc n)
  obtain ps1 vs1 where f: "fold move_particle [0..<n] (ps, vs) = (ps1, vs1)"
    by (cases "fold move_particle [0..<n] (ps, vs)")
  from Suc.prems have le: "n \<le> length vs" by simp
  note IH = Suc.IH[OF le f]
  from Suc.prems(2) have "move_particle n (fold move_particle [0..<n] (ps, vs)) = (ps', vs')"
    by simp
  then have m: "move_particle n (ps1, vs1) = (ps', vs')" unfolding f .
  obtain vx vy vz where v: "vs ! n = (vx, vy, vz)" by (cases "vs ! n")
  with IH have v1: "vs1 ! n = (vx, vy, vz)" by simp
  from m v1 have e: "vs' = vs1[n := (vx * 0.97, vy * 0.97, vz * 0.97)]"
    "ps' = ps1[n * 3 := ps1 ! (n * 3) + vx, n * 3 + 1 := ps1 ! (n * 3 + 1) + (vy - 0.003),
               n * 3 + 2 := ps1 ! (n * 3 + 2) + vz]"
    by (simp_all add: move_particle_def Let_def)
  have len: "length ps' = length ps" "length vs' = length vs" using IH e by simp_all
  have a: "\<forall>j<Suc n. vs' ! j = (fst (vs ! j) * 0.97, fst (snd (vs ! j)) * 0.97, snd (snd (vs ! j)) * 0.97)"
    using IH e(1) v Suc.prems(1) by (auto simp: nth_list_update less_Suc_eq)
  have b: "\<forall>j\<ge>Suc n. vs' ! j = vs ! j" using IH e(1) by (auto simp: nth_list_update)
  have d: "\<forall>m\<ge>Suc n * 3. ps' ! m = ps ! m" using IH e(2) by (auto simp: nth_list_update)
  have c: "\<forall>j<Suc n. j * 3 + 2 < length ps \<longrightarrow>
       ps' ! (j * 3) = ps ! (j * 3) + fst (vs ! j) \<and>
       ps' ! (j * 3 + 1) = ps ! (j * 3 + 1) + (fst (snd (vs ! j)) - 0.003) \<and>
       ps' ! (j * 3 + 2) = ps ! (j * 3 + 2) + snd (snd (vs ! j))"
  proof (intro allI impI)
    fix j assume j: "j < Suc n" "j * 3 + 2 < length ps"
    show "ps' ! (j * 3) = ps ! (j * 3) + fst (vs ! j) \<and>
       ps' ! (j * 3 + 1) = ps ! (j * 3 + 1) + (fst (snd (vs ! j)) - 0.003) \<and>
       ps' ! (j * 3 + 2) = ps ! (j * 3 + 2) + snd (snd (vs ! j))"
    proof (cases "j = n")
      case True
      have o: "ps1 ! (n * 3) = ps ! (n * 3)" "ps1 ! (n * 3 + 1) = ps ! (n * 3 + 1)"
        "ps1 ! (n * 3 + 2) = ps ! (n * 3 + 2)" using IH by simp_all
      have l1: "length ps1 = length ps" using IH by simp
      show ?thesis using True j(2) l1 unfolding e(2) o by (simp add: v nth_list_update)
    next
      case False
      with j have jn: "j < n" by simp
      then have ne: "j * 3 \<noteq> n * 3" "j * 3 \<noteq> n * 3 + 1" "j * 3 \<noteq> n * 3 + 2"
        "j * 3 + 1 \<noteq> n * 3" "j * 3 + 1 \<noteq> n * 3 + 1" "j * 3 + 1 \<noteq> n * 3 + 2"
        "j * 3 + 2 \<noteq> n * 3" "j * 3 + 2 \<noteq> n * 3 + 1" "j * 3 + 2 \<noteq> n * 3 + 2" by simp_all
      show ?thesis using IH jn j(2) unfolding e(2) by (simp add: nth_list_update ne)
    qed
  qed
  from len a b c d show ?case by blast
qed

lemma explosion_step_fields:
  "life (explosion_step fw) = life fw - decay fw"
  "opacity (explosion_step fw) = life fw - decay fw"
  "decay (explosion_step fw) = decay fw"
  "fw_colors (explosion_step fw) = fw_colors fw"
  by (simp_all add: explosion_step_def Let_def split: prod.splits)

lemma explosion_step_particles:
  "length (positions (explosion_step fw)) = length (positions fw)"
  "length (velocities (explosion_step fw)) = length (velocities fw)"
  "j < length (velocities fw) \<Longrightarrow> velocities fw ! j = (vx, vy, vz) \<Longrightarrow>
     velocities (explosion_step fw) ! j = (vx * 0.97, vy * 0.97, vz * 0.97)"
  "j < length (velocities fw) \<Longrightarrow> velocities fw ! j = (vx, vy, vz) \<Longrightarrow>
   j * 3 + 2 < length (positions fw) \<Longrightarrow>
     positions (explosion_step fw) ! (j * 3) = positions fw ! (j * 3) + vx \<and>
     positions (explosion_step fw) ! (j * 3 + 1) = positions fw ! (j * 3 + 1) + (vy - 0.003) \<and>
     positions (explosion_step fw) ! (j * 3 + 2) = positions fw ! (j * 3 + 2) + vz"
proof -
  obtain ps vs where f: "fold move_particle [0..<length (velocities fw)] (positions fw, velocities fw) = (ps, vs)"
    by (cases "fold move_particle [0..<length (velocities fw)] (positions fw, velocities fw)")
  note m = move_fold[OF order_refl f]
  have e: "positions (explosion_step fw) = ps" "velocities (explosion_step fw) = vs"
    by (simp_all add: explosion_step_def f Let_def)
  show "length (positions (explosion_step fw)) = length (positions fw)"
    "length (velocities (explosion_step fw)) = length (velocities fw)" unfolding e using m by simp_all
  show "j < length (velocities fw) \<Longrightarrow> velocities fw ! j = (vx, vy, vz) \<Longrightarrow>
     velocities (explosion_step fw) ! j = (vx * 0.97, vy * 0.97, vz * 0.97)"
    unfolding e using m by simp
  show "j < length (velocities fw) \<Longrightarrow> velocities fw ! j = (vx, vy, vz) \<Longrightarrow>
   j * 3 + 2 < length (positions fw) \<Longrightarrow>
     positions (explosion_step fw) ! (j * 3) = positions fw ! (j * 3) + vx \<and>
     positions (explosion_step fw) ! (j * 3 + 1) = positions fw ! (j * 3 + 1) + (vy - 0.003) \<and>
     positions (explosion_step fw) ! (j * 3 + 2) = positions fw ! (j * 3 + 2) + vz"
    unfolding e using m by simp
qed

lemma explosion_after_velocity:
  "explosion_after n fw = Some fw' \<Longrightarrow> j < length (velocities fw) \<Longrightarrow>
   velocities fw ! j = (vx, vy, vz) \<Longrightarrow>
   length (velocities fw') = length (velocities fw) \<and>
   velocities fw' ! j = (vx * 0.97 ^ n, vy * 0.97 ^ n, vz * 0.97 ^ n)"
proof (induction n arbitrary: fw')
  case 0 then show ?case by simp
next
  case (Suc n)
  from Suc.prems(1) obtain fw1 where a: "explosion_after n fw = Some fw1"
    and b: "fw' = explosion_step fw1"
    by (auto split: option.splits if_splits)
  note IH = Suc.IH[OF a Suc.prems(2,3)]
  from IH Suc.prems(2) have j: "j < length (velocities fw1)" by simp
  from IH have v: "velocities fw1 ! j = (vx * 0.97 ^ n, vy * 0.97 ^ n, vz * 0.97 ^ n)" by simp
  show ?case unfolding b using explosion_step_particles(2)[of fw1] explosion_step_particles(3)[OF j v] IH
    by (simp add: mult.assoc)
qed

lemma update_firework_explosion:
  assumes "i < length (fireworks st)" "fireworks st ! i = Explosion fw"
  shows "update_firework Color rnd i st =
     Inr (st\<lparr> fireworks := (if life fw - decay fw \<le> 0 then splice1 (fireworks st) i
                               else (fireworks st)[i := Explosion (explosion_step fw)]) \<rparr>)"
  using assms by (simp add: update_firework_def Let_def explosion_step_fields)

text \<open>
  Claim C1, as the code has it. In one update step of an explosion every particle's position
  is advanced by its velocity and, on the vertical component only, lowered by the constant
  \<open>0.003\<close>; this gravity term enters the position increment and is not stored in the
  velocity. Then each of the three velocity components is multiplied by \<open>0.97\<close>, so after
  \<open>n\<close> steps in the pool the velocity is \<open>0.97 ^ n\<close> times the initial one. A surviving
  explosion at index \<open>i\<close> of the pool is replaced by its step.
\<close>

theorem burst_particle_motion:
  assumes "j < length (velocities fw)" and "j * 3 + 2 < length (positions fw)"
    and "velocities fw ! j = (vx, vy, vz)"
  shows "positions (explosion_step fw) ! (j * 3) = positions fw ! (j * 3) + vx \<and>
         positions (explosion_step fw) ! (j * 3 + 1) = positions fw ! (j * 3 + 1) + (vy - 0.003) \<and>
         positions (explosion_step fw) ! (j * 3 + 2) = positions fw ! (j * 3 + 2) + vz \<and>
         velocities (explosion_step fw) ! j = (vx * 0.97, vy * 0.97, vz * 0.97) \<and>
         (\<forall>n fw'. explosion_after n fw = Some fw' \<longrightarrow>
            velocities fw' ! j = (vx * 0.97 ^ n, vy * 0.97 ^ n, vz * 0.97 ^ n)) \<and>
         (\<forall>Color rnd st i. i < length (fireworks st) \<and> fireworks st ! i = Explosion fw \<and>
            0 < life fw - decay fw \<longrightarrow>
            update_firework Color rnd i st =
              Inr (st\<lparr> fireworks := (fireworks st)[i := Explosion (explosion_step fw)] \<rparr>))"
  using explosion_step_particles(3,4)[OF assms(1,3)] assms(2)
    explosion_after_velocity[OF _ assms(1,3)] update_firework_explosion
  by auto

text \<open>
  One particle at height \<open>10\<close> with velocity \<open>(0, 0.1, 0)\<close>, in a pool of one explosion.
\<close>

theorem burst_particle_motion_witness:
  "let fw = \<lparr> positions = [0, 10, 0], fw_colors = [1, 1, 1], opacity = 1,
                 velocities = [(0, 0.1, 0)], life = 1, decay = 0.01 \<rparr>
   in (0::nat) < length (velocities fw) \<and> (0::nat) * 3 + 2 < length (positions fw) \<and>
      velocities fw ! 0 = (0, 0.1, 0) \<and>
      positions (explosion_step fw) ! 1 = 10.097 \<and>
      velocities (explosion_step fw) ! 0 = (0, 0.097, 0) \<and>
      update_firework hex_color (\<lambda>k. 0) 0 \<lparr> fireworks = [Explosion fw], random_calls = 0 \<rparr> =
        Inr \<lparr> fireworks = [Explosion (explosion_step fw)], random_calls = 0 \<rparr>"
proof -
  define fw where "fw = \<lparr> positions = [0, 10, 0], fw_colors = [1, 1, 1], opacity = 1,
                 velocities = [(0, 0.1::real, 0)], life = 1, decay = 0.01 \<rparr>"
  have h1: "(0::nat) < length (velocities fw)" and h2: "(0::nat) * 3 + 2 < length (positions fw)"
    and h3: "velocities fw ! 0 = (0, 0.1, 0)" by (simp_all add: fw_def)
  note t = burst_particle_motion[OF h1 h2 h3]
  from t have a: "positions (explosion_step fw) ! (0 * 3 + 1) = positions fw ! (0 * 3 + 1) + (0.1 - 0.003)"
    by blast
  from t have b: "velocities (explosion_step fw) ! 0 = (0 * 0.97, 0.1 * 0.97, 0 * 0.97)" by blast
  have c: "(0::nat) < length (fireworks \<lparr> fireworks = [Explosion fw], random_calls = 0 \<rparr>) \<and>
     fireworks \<lparr> fireworks = [Explosion fw], random_calls = 0 \<rparr> ! 0 = Explosion fw \<and>
     0 < life fw - decay fw" by (simp add: fw_def)
  from t c have d: "update_firework hex_color (\<lambda>k. 0) 0 \<lparr> fireworks = [Explosion fw], random_calls = 0 \<rparr> =
     Inr (\<lparr> fireworks = [Explosion fw], random_calls = 0 \<rparr>
          \<lparr> fireworks := (fireworks \<lparr> fireworks = [Explosion fw], random_calls = 0 \<rparr>)[0 := Explosion (explosion_step fw)] \<rparr>)"
    by blast
  have a': "positions (explosion_step fw) ! 1 = 10.097" using a by (simp add: fw_def)
  have b': "velocities (explosion_step fw) ! 0 = (0, 0.097, 0)" using b by simp
  have d': "update_firework hex_color (\<lambda>k. 0) 0 \<lparr> fireworks = [Explosion fw], random_calls = 0 \<rparr> =
        Inr \<lparr> fireworks = [Explosion (explosion_step fw)], random_calls = 0 \<rparr>" using d by simp
  show ?thesis unfolding Let_def fw_def[symmetric] using h1 h2 h3 a' b' d' by blast
qed

text \<open>
  The gravity term is not applied to the velocity: a particle at height \<open>10\<close> with velocity
  \<open>(0, 0.1, 0)\<close> moves to height \<open>10.097\<close>, not \<open>10.1\<close>, and its new vertical velocity is
  \<open>0.097 = 0.1 * 0.97\<close>, with no decrement before or after the drag.
\<close>

theorem burst_gravity_counterexample:
  "let fw = \<lparr> positions = [0, 10, 0], fw_colors = [1, 1, 1], opacity = 1,
                 velocities = [(0, 0.1, 0)], life = 1, decay = 0.01 \<rparr>
   in positions (explosion_step fw) = [0, 10.097, 0] \<and>
      velocities (explosion_step fw) = [(0, 0.097, 0)] \<and>
      positions (explosion_step fw) ! 1 \<noteq> positions fw ! 1 + 0.1 \<and>
      fst (snd (velocities (explosion_step fw) ! 0)) \<noteq> (0.1 - 0.003) * 0.97 \<and>
      fst (snd (velocities (explosion_step fw) ! 0)) \<noteq> 0.1 * 0.97 - 0.003"
  by (simp add: explosion_step_def move_particle_def Let_def)

lemma particle_fold:
  "n * 3 \<le> length ps \<Longrightarrow>
   fold (particle_init Color rnd x y z) [0..<n] (ps, vs, cs, k) = (ps', vs', cs', k') \<Longrightarrow>
   length ps' = length ps \<and> length vs' = length vs + n \<and> length cs' = length cs \<and> k' = k + 4 * n \<and>
   (\<forall>j<n. ps' ! (j * 3) = x \<and> ps' ! (j * 3 + 1) = y \<and> ps' ! (j * 3 + 2) = z)"
proof (induction n arbitrary: ps' vs' cs' k')
  case 0 then show ?case by simp
next
  case (Suc n)
  obtain ps1 vs1 cs1 k1 where f: "fold (particle_init Color rnd x y z) [0..<n] (ps, vs, cs, k) = (ps1, vs1, cs1, k1)"
    by (cases "fold (particle_init Color rnd x y z) [0..<n] (ps, vs, cs, k)") auto
  from Suc.prems have le: "n * 3 \<le> length ps" by simp
  note IH = Suc.IH[OF le f]
  from Suc.prems(2) have "particle_init Color rnd x y z n (fold (particle_init Color rnd x y z) [0..<n] (ps, vs, cs, k)) = (ps', vs', cs', k')"
    by simp
  then have m: "particle_init Color rnd x y z n (ps1, vs1, cs1, k1) = (ps', vs', cs', k')" unfolding f .
  then have e: "ps' = ps1[n * 3 := x, n * 3 + 1 := y, n * 3 + 2 := z]" "length vs' = length vs1 + 1"
    "length cs' = length cs1" "k' = k1 + 4"
    by (auto simp: particle_init_def Let_def write3_def split: prod.splits)
  have l: "n * 3 + 2 < length ps1" using IH Suc.prems(1) by simp
  have a: "\<forall>j<Suc n. ps' ! (j * 3) = x \<and> ps' ! (j * 3 + 1) = y \<and> ps' ! (j * 3 + 2) = z"
  proof (intro allI impI)
    fix j assume j: "j < Suc n"
    show "ps' ! (j * 3) = x \<and> ps' ! (j * 3 + 1) = y \<and> ps' ! (j * 3 + 2) = z"
    proof (cases "j = n")
      case True then show ?thesis unfolding e(1) using l by (simp add: nth_list_update)
    next
      case False
      with j have jn: "j < n" by simp
      then have ne: "j * 3 \<noteq> n * 3" "j * 3 \<noteq> n * 3 + 1" "j * 3 \<noteq> n * 3 + 2"
        "j * 3 + 1 \<noteq> n * 3" "j * 3 + 1 \<noteq> n * 3 + 1" "j * 3 + 1 \<noteq> n * 3 + 2"
        "j * 3 + 2 \<noteq> n * 3" "j * 3 + 2 \<noteq> n * 3 + 1" "j * 3 + 2 \<noteq> n * 3 + 2" by simp_all
      show ?thesis using IH jn unfolding e(1) by (simp add: nth_list_update ne)
    qed
  qed
  show ?case using IH e a by simp
qed

lemma createExplosion_props:
  assumes "createExplosion Color rnd k x y z = (ex, k')"
  shows "life ex = 1" "opacity ex = 1" "decay ex = 0.01 + rnd (k + 4 * particleCount) * 0.005"
    "k' = k + 4 * particleCount + 1"
    "length (positions ex) = particleCount * 3" "length (velocities ex) = particleCount"
    "\<forall>j<particleCount. positions ex ! (j * 3) = x \<and> positions ex ! (j * 3 + 1) = y \<and> positions ex ! (j * 3 + 2) = z"
proof -
  obtain ps vs cs k1 where f: "init_particles Color rnd x y z particleCount k = (ps, vs, cs, k1)"
    by (cases "init_particles Color rnd x y z particleCount k") auto
  then have f': "fold (particle_init Color rnd x y z) [0..<particleCount]
     (replicate (particleCount * 3) 0, [], replicate (particleCount * 3) 0, k) = (ps, vs, cs, k1)"
    by (simp add: init_particles_def)
  have "particleCount * 3 \<le> length (replicate (particleCount * 3) (0::real))" by simp
  note p = particle_fold[OF this f']
  from assms f have e: "ex = \<lparr> positions = ps, fw_colors = cs, opacity = 1, velocities = vs, life = 1.0,
            decay = 0.01 + rnd k1 * 0.005 \<rparr>" "k' = k1 + 1"
    by (simp_all add: createExplosion_def)
  show "life ex = 1" "opacity ex = 1" "decay ex = 0.01 + rnd (k + 4 * particleCount) * 0.005"
    "k' = k + 4 * particleCount + 1"
    "length (positions ex) = particleCount * 3" "length (velocities ex) = particleCount"
    "\<forall>j<particleCount. positions ex ! (j * 3) = x \<and> positions ex ! (j * 3 + 1) = y \<and> positions ex ! (j * 3 + 2) = z"
    using p unfolding e by simp_all
qed

lemma rng_okD: "rng_ok rnd \<Longrightarrow> 0 \<le> rnd k \<and> rnd k < 1"
  by (simp add: rng_ok_def)

lemma createExplosion_ok:
  assumes "rng_ok rnd" "createExplosion Color rnd k x y z = (ex, k')"
  shows "explosion_ok ex"
  using createExplosion_props(1,2,3,5,6)[OF assms(2)] rng_okD[OF assms(1), of "k + 4 * particleCount"]
  by (simp add: explosion_ok_def)

lemma createRocket_ok:
  assumes "rng_ok rnd" "createRocket rnd k = (r, k')"
  shows "rocket_ok r" "k' = k + 5"
proof -
  from assms(2) have e: "fw_speed r = 0.15 + rnd (k + 4) * 0.1" "targetY r = 8 + rnd (k + 2) * 8"
    "fw_y r = 0" "rocket_position r = [fw_x r, fw_y r, fw_z r]" "k' = k + 5"
    by (auto simp: createRocket_def Let_def)
  show "rocket_ok r" using e rng_okD[OF assms(1), of "k + 4"] rng_okD[OF assms(1), of "k + 2"]
    by (simp add: rocket_ok_def)
  show "k' = k + 5" by (rule e(5))
qed

lemma spawn_rocket_ok:
  assumes "rng_ok rnd" "pool_ok st"
  shows "pool_ok (spawn_rocket rnd rate st)"
proof (cases "rnd (random_calls st) < rate \<and> length (fireworks st) < 8")
  case True
  obtain r k' where c: "createRocket rnd (random_calls st + 1) = (r, k')"
    by (cases "createRocket rnd (random_calls st + 1)")
  from True c have e: "spawn_rocket rnd rate st = st\<lparr> fireworks := fireworks st @ [Rocket r], random_calls := k' \<rparr>"
    by (simp add: spawn_rocket_def Let_def)
  show ?thesis unfolding e using assms(2) True createRocket_ok(1)[OF assms(1) c]
    by (simp add: pool_ok_def)
next
  case False
  then have e: "spawn_rocket rnd rate st = st\<lparr> random_calls := random_calls st + 1 \<rparr>"
    by (auto simp: spawn_rocket_def Let_def)
  show ?thesis unfolding e using assms(2) by (simp add: pool_ok_def)
qed

lemma list_all_splice1: "list_all P xs \<Longrightarrow> list_all P (splice1 xs i)"
  unfolding splice1_def list_all_iff by (auto dest: in_set_takeD in_set_dropD)

lemma list_all_update: "list_all P xs \<Longrightarrow> P v \<Longrightarrow> list_all P (xs[i := v])"
  unfolding list_all_iff using set_update_subset_insert[of xs i v] by auto

lemma length_splice1: "i < length xs \<Longrightarrow> length (splice1 xs i) = length xs - 1"
  by (simp add: splice1_def)

lemma rocket_step_ok:
  "rocket_ok r \<Longrightarrow> \<not> targetY (rocket_step r) \<le> fw_y (rocket_step r) \<Longrightarrow> rocket_ok (rocket_step r)"
  by (simp add: rocket_ok_def rocket_step_def Let_def)

lemma explosion_step_ok:
  "explosion_ok e \<Longrightarrow> \<not> life (explosion_step e) \<le> 0 \<Longrightarrow> explosion_ok (explosion_step e)"
  using explosion_step_particles(1,2)[of e]
  by (simp add: explosion_ok_def explosion_step_fields)

lemma update_firework_ok:
  assumes "rng_ok rnd" "list_all firework_ok (fireworks st)" "i < length (fireworks st)"
  shows "\<exists>st'. update_firework Color rnd i st = Inr st' \<and> list_all firework_ok (fireworks st') \<and>
           length (fireworks st') \<le> length (fireworks st) \<and>
           length (fireworks st) - 1 \<le> length (fireworks st')"
proof (cases "fireworks st ! i")
  case (Rocket r)
  from assms(2,3) Rocket have ok: "rocket_ok r" by (auto simp: list_all_length)
  show ?thesis
  proof (cases "targetY (rocket_step r) \<le> fw_y (rocket_step r)")
    case True
    obtain ex k' where c: "createExplosion Color rnd (random_calls st) (fw_x (rocket_step r))
        (fw_y (rocket_step r)) (fw_z (rocket_step r)) = (ex, k')"
      by (cases "createExplosion Color rnd (random_calls st) (fw_x (rocket_step r))
        (fw_y (rocket_step r)) (fw_z (rocket_step r))")
    have e: "update_firework Color rnd i st =
       Inr (st\<lparr> fireworks := splice1 (fireworks st) i @ [Explosion ex], random_calls := k' \<rparr>)"
      using assms(3) Rocket True c by (simp add: update_firework_def Let_def)
    show ?thesis unfolding e using createExplosion_ok[OF assms(1) c] list_all_splice1[OF assms(2), of i]
        length_splice1[OF assms(3)] assms(3) by simp
  next
    case False
    have e: "update_firework Color rnd i st = Inr (st\<lparr> fireworks := (fireworks st)[i := Rocket (rocket_step r)] \<rparr>)"
      using assms(3) Rocket False by (simp add: update_firework_def Let_def)
    show ?thesis unfolding e using list_all_update[OF assms(2), of "Rocket (rocket_step r)" i]
        rocket_step_ok[OF ok False] by simp
  qed
next
  case (Explosion ex)
  from assms(2,3) Explosion have ok: "explosion_ok ex" by (auto simp: list_all_length)
  show ?thesis
  proof (cases "life (explosion_step ex) \<le> 0")
    case True
    have e: "update_firework Color rnd i st = Inr (st\<lparr> fireworks := splice1 (fireworks st) i \<rparr>)"
      using assms(3) Explosion True by (simp add: update_firework_def Let_def)
    show ?thesis unfolding e using list_all_splice1[OF assms(2), of i] length_splice1[OF assms(3)] by simp
  next
    case False
    have e: "update_firework Color rnd i st = Inr (st\<lparr> fireworks := (fireworks st)[i := Explosion (explosion_step ex)] \<rparr>)"
      using assms(3) Explosion False by (simp add: update_firework_def Let_def)
    show ?thesis unfolding e using list_all_update[OF assms(2), of "Explosion (explosion_step ex)" i]
        explosion_step_ok[OF ok False] by simp
  qed
qed

lemma update_loop_ok:
  "rng_ok rnd \<Longrightarrow> list_all firework_ok (fireworks st) \<Longrightarrow> n \<le> length (fireworks st) \<Longrightarrow>
   \<exists>st'. update_loop Color rnd n st = Inr st' \<and> list_all firework_ok (fireworks st') \<and>
         length (fireworks st') \<le> length (fireworks st)"
proof (induction n arbitrary: st)
  case 0 then show ?case by simp
next
  case (Suc n)
  from Suc.prems(3) have i: "n < length (fireworks st)" by simp
  from update_firework_ok[OF Suc.prems(1,2) i, of Color] obtain st1 where
    u: "update_firework Color rnd n st = Inr st1" and ok1: "list_all firework_ok (fireworks st1)"
    and l1: "length (fireworks st1) \<le> length (fireworks st)"
    and l2: "length (fireworks st) - 1 \<le> length (fireworks st1)" by blast
  from i l2 have n: "n \<le> length (fireworks st1)" by simp
  from Suc.IH[OF Suc.prems(1) ok1 n] obtain st' where
    r: "update_loop Color rnd n st1 = Inr st'" "list_all firework_ok (fireworks st')"
    "length (fireworks st') \<le> length (fireworks st1)" by blast
  show ?case using u r l1 by simp
qed

lemma updateFireworks_ok:
  assumes "rng_ok rnd" "pool_ok st"
  shows "\<exists>st'. updateFireworks Color rnd rate st = Inr st' \<and> pool_ok st'"
proof -
  note s = spawn_rocket_ok[OF assms, of rate]
  then have a: "list_all firework_ok (fireworks (spawn_rocket rnd rate st))"
    and b: "length (fireworks (spawn_rocket rnd rate st)) \<le> 8" by (simp_all add: pool_ok_def)
  from update_loop_ok[OF assms(1) a order_refl, of Color] b show ?thesis
    unfolding updateFireworks_def Let_def pool_ok_def by fastforce
qed

lemma run_fireworks_ok:
  "rng_ok rnd \<Longrightarrow> pool_ok st \<Longrightarrow> \<exists>st'. run_fireworks Color rnd rates st = Inr st' \<and> pool_ok st'"
proof (induction rates arbitrary: st)
  case Nil then show ?case by simp
next
  case (Cons rate rates)
  from updateFireworks_ok[OF Cons.prems, of Color rate] obtain st1 where
    u: "updateFireworks Color rnd rate st = Inr st1" and ok: "pool_ok st1" by blast
  from Cons.IH[OF Cons.prems(1) ok] show ?case using u by simp
qed

lemma pool_init_ok: "pool_ok (pool_init k)"
  by (simp add: pool_ok_def pool_init_def)

lemma update_firework_length:
  assumes "i < length (fireworks st)"
  shows "\<exists>st'. update_firework Color rnd i st = Inr st' \<and>
           length (fireworks st') \<le> length (fireworks st) \<and>
           length (fireworks st) - 1 \<le> length (fireworks st')"
  using assms length_splice1[OF assms]
  by (auto simp: update_firework_def Let_def split: firework.splits prod.splits)

lemma update_loop_length:
  "n \<le> length (fireworks st) \<Longrightarrow>
   \<exists>st'. update_loop Color rnd n st = Inr st' \<and> length (fireworks st') \<le> length (fireworks st)"
proof (induction n arbitrary: st)
  case 0 then show ?case by simp
next
  case (Suc n)
  then have i: "n < length (fireworks st)" by simp
  from update_firework_length[OF i, of Color rnd] obtain st1 where
    u: "update_firework Color rnd n st = Inr st1"
    and l1: "length (fireworks st1) \<le> length (fireworks st)"
    and l2: "length (fireworks st) - 1 \<le> length (fireworks st1)" by blast
  from i l2 have n: "n \<le> length (fireworks st1)" by simp
  from Suc.IH[OF n] obtain st' where
    r: "update_loop Color rnd n st1 = Inr st'" "length (fireworks st') \<le> length (fireworks st1)" by blast
  show ?case using u r l1 by simp
qed

lemma spawn_rocket_length:
  "length (fireworks st) \<le> 8 \<Longrightarrow> length (fireworks (spawn_rocket rnd rate st)) \<le> 8"
  by (auto simp: spawn_rocket_def Let_def split: prod.splits)

lemma spawn_rocket_full:
  "8 \<le> length (fireworks st) \<Longrightarrow> spawn_rocket rnd rate st = st\<lparr> random_calls := random_calls st + 1 \<rparr>"
  by (auto simp: spawn_rocket_def Let_def)

lemma updateFireworks_length:
  assumes "length (fireworks st) \<le> 8"
  shows "\<exists>st'. updateFireworks Color rnd rate st = Inr st' \<and> length (fireworks st') \<le> 8"
  using update_loop_length[OF order_refl, of Color rnd "spawn_rocket rnd rate st"]
    spawn_rocket_length[OF assms, of rnd rate]
  unfolding updateFireworks_def Let_def by fastforce

lemma run_fireworks_length:
  "length (fireworks st) \<le> 8 \<Longrightarrow>
   \<exists>st'. run_fireworks Color rnd rates st = Inr st' \<and> length (fireworks st') \<le> 8"
proof (induction rates arbitrary: st)
  case Nil then show ?case by simp
next
  case (Cons rate rates)
  from updateFireworks_length[OF Cons.prems, of Color rnd rate] obtain st1 where
    u: "updateFireworks Color rnd rate st = Inr st1" and l: "length (fireworks st1) \<le> 8" by blast
  from Cons.IH[OF l] show ?case using u by simp
qed

lemma update_firework_burst:
  assumes "i < length (fireworks st)" "fireworks st ! i = Rocket r" "targetY r \<le> fw_y r + fw_speed r"
    "createExplosion Color rnd (random_calls st) (fw_x r) (fw_y r + fw_speed r) (fw_z r) = (ex, k')"
  shows "update_firework Color rnd i st =
     Inr (st\<lparr> fireworks := splice1 (fireworks st) i @ [Explosion ex], random_calls := k' \<rparr>)"
  using assms by (simp add: update_firework_def Let_def rocket_step_def)

lemma update_firework_ascend:
  assumes "i < length (fireworks st)" "fireworks st ! i = Rocket r" "fw_y r + fw_speed r < targetY r"
  shows "update_firework Color rnd i st =
     Inr (st\<lparr> fireworks := (fireworks st)[i := Rocket (rocket_step r)] \<rparr>)"
  using assms by (simp add: update_firework_def Let_def rocket_step_def)

text \<open>The entities at the indices above \<open>i\<close> come through the step at \<open>i\<close> as a block.\<close>

lemma update_firework_suffix:
  assumes "i < length (fireworks st)" "update_firework Color rnd i st = Inr st'"
  shows "\<exists>A B. fireworks st' = A @ drop (Suc i) (fireworks st) @ B \<and> length A \<le> Suc i \<and> i \<le> length A"
proof -
  have u: "(fireworks st)[i := v] = take i (fireworks st) @ [v] @ drop (Suc i) (fireworks st) @ []" for v
    using assms(1) by (simp add: upd_conv_take_nth_drop)
  have l: "length (take i (fireworks st) @ [v]) \<le> Suc i \<and> i \<le> length (take i (fireworks st) @ [v])" for v
    using assms(1) by simp
  have l': "length (take i (fireworks st)) \<le> Suc i \<and> i \<le> length (take i (fireworks st))"
    using assms(1) by simp
  show ?thesis
  proof (cases "fireworks st ! i")
    case (Rocket r)
    show ?thesis
    proof (cases "targetY r \<le> fw_y r + fw_speed r")
      case True
      obtain ex k' where c: "createExplosion Color rnd (random_calls st) (fw_x r) (fw_y r + fw_speed r) (fw_z r) = (ex, k')"
        by (cases "createExplosion Color rnd (random_calls st) (fw_x r) (fw_y r + fw_speed r) (fw_z r)")
      from update_firework_burst[OF assms(1) Rocket True c] assms(2)
      have "fireworks st' = take i (fireworks st) @ drop (Suc i) (fireworks st) @ [Explosion ex]"
        by (auto simp: splice1_def)
      with l' show ?thesis by blast
    next
      case False
      then have "fw_y r + fw_speed r < targetY r" by simp
      from update_firework_ascend[OF assms(1) Rocket this] assms(2)
      have "fireworks st' = (take i (fireworks st) @ [Rocket (rocket_step r)]) @ drop (Suc i) (fireworks st) @ []"
        using u[of "Rocket (rocket_step r)"] by auto
      with l[of "Rocket (rocket_step r)"] show ?thesis by blast
    qed
  next
    case (Explosion e)
    from update_firework_explosion[OF assms(1) Explosion] assms(2)
    have d: "fireworks st' = (if life e - decay e \<le> 0 then splice1 (fireworks st) i
                               else (fireworks st)[i := Explosion (explosion_step e)])" by auto
    show ?thesis
    proof (cases "life e - decay e \<le> 0")
      case True
      with d have "fireworks st' = take i (fireworks st) @ drop (Suc i) (fireworks st) @ []"
        by (simp add: splice1_def)
      with l' show ?thesis by blast
    next
      case False
      with d have "fireworks st' = (take i (fireworks st) @ [Explosion (explosion_step e)]) @ drop (Suc i) (fireworks st) @ []"
        using u[of "Explosion (explosion_step e)"] by simp
      with l[of "Explosion (explosion_step e)"] show ?thesis by blast
    qed
  qed
qed

lemma update_loop_suffix:
  "n \<le> length (fireworks st) \<Longrightarrow> update_loop Color rnd n st = Inr st' \<Longrightarrow>
   \<exists>A B. fireworks st' = A @ drop n (fireworks st) @ B"
proof (induction n arbitrary: st)
  case 0
  then have "fireworks st' = [] @ drop 0 (fireworks st) @ []" by simp
  then show ?case by blast
next
  case (Suc n)
  then have i: "n < length (fireworks st)" by simp
  from update_firework_length[OF i, of Color rnd] obtain st1 where
    u: "update_firework Color rnd n st = Inr st1"
    and l2: "length (fireworks st) - 1 \<le> length (fireworks st1)" by blast
  from update_firework_suffix[OF i u] obtain A B where
    f: "fireworks st1 = A @ drop (Suc n) (fireworks st) @ B" and la: "length A \<le> Suc n" "n \<le> length A" by blast
  from i l2 have n: "n \<le> length (fireworks st1)" by simp
  from Suc.prems(2) u have r: "update_loop Color rnd n st1 = Inr st'" by simp
  from Suc.IH[OF n r] obtain A' B' where g: "fireworks st' = A' @ drop n (fireworks st1) @ B'" by blast
  have "drop n (fireworks st1) = drop n A @ drop (Suc n) (fireworks st) @ B"
    unfolding f using la by simp
  with g have "fireworks st' = (A' @ drop n A) @ drop (Suc n) (fireworks st) @ (B @ B')" by simp
  then show ?case by blast
qed

lemma explosion_after_life:
  "explosion_after n fw = Some fw' \<Longrightarrow>
   life fw' = life fw - real n * decay fw \<and> decay fw' = decay fw"
proof (induction n arbitrary: fw')
  case 0 then show ?case by simp
next
  case (Suc n)
  from Suc.prems obtain fw1 where a: "explosion_after n fw = Some fw1"
    and b: "fw' = explosion_step fw1"
    by (auto split: option.splits if_splits)
  from Suc.IH[OF a] show ?case unfolding b by (simp add: explosion_step_fields algebra_simps)
qed

lemma explosion_after_None_iff:
  assumes "0 < decay fw"
  shows "explosion_after n fw = None \<longleftrightarrow> 1 \<le> n \<and> life fw - real n * decay fw \<le> 0"
proof (induction n)
  case 0 show ?case by simp
next
  case (Suc n)
  show ?case
  proof (cases "explosion_after n fw")
    case None
    with Suc have "1 \<le> n" "life fw - real n * decay fw \<le> 0" by simp_all
    moreover have "life fw - real (Suc n) * decay fw \<le> life fw - real n * decay fw"
      using assms by (simp add: algebra_simps)
    ultimately show ?thesis using None by simp
  next
    case (Some fw1)
    from explosion_after_life[OF Some] have "life (explosion_step fw1) = life fw - real (Suc n) * decay fw"
      by (simp add: explosion_step_fields algebra_simps)
    then show ?thesis using Some by simp
  qed
qed

text \<open>
  Claim C6. For every random source and every sequence of spawn rates, every frame returns
  and the pool never holds more than eight entities. With eight entities in the pool the
  spawn changes nothing but the count of random draws (there is nowhere to queue a rocket),
  and the step that turns a rocket into an explosion leaves the size of the pool unchanged.
\<close>

theorem pool_never_exceeds_capacity:
  "(\<exists>st. run_fireworks Color rnd rates (pool_init k) = Inr st \<and> length (fireworks st) \<le> 8) \<and>
   (\<forall>st. length (fireworks st) \<le> 8 \<longrightarrow>
      (\<exists>st'. updateFireworks Color rnd rate st = Inr st' \<and> length (fireworks st') \<le> 8)) \<and>
   (\<forall>st. 8 \<le> length (fireworks st) \<longrightarrow>
      spawn_rocket rnd rate st = st\<lparr> random_calls := random_calls st + 1 \<rparr>) \<and>
   (\<forall>st i r. i < length (fireworks st) \<and> fireworks st ! i = Rocket r \<and>
        targetY r \<le> fw_y r + fw_speed r \<longrightarrow>
      (\<exists>st'. update_firework Color rnd i st = Inr st' \<and>
             length (fireworks st') = length (fireworks st)))"
proof (intro conjI allI impI)
  have "length (fireworks (pool_init k)) \<le> 8" by (simp add: pool_init_def)
  from run_fireworks_length[OF this]
  show "\<exists>st. run_fireworks Color rnd rates (pool_init k) = Inr st \<and> length (fireworks st) \<le> 8" .
  show "\<exists>st'. updateFireworks Color rnd rate st = Inr st' \<and> length (fireworks st') \<le> 8"
    if "length (fireworks st) \<le> 8" for st using that by (rule updateFireworks_length)
  show "spawn_rocket rnd rate st = st\<lparr> random_calls := random_calls st + 1 \<rparr>"
    if "8 \<le> length (fireworks st)" for st using that by (rule spawn_rocket_full)
  show "\<exists>st'. update_firework Color rnd i st = Inr st' \<and> length (fireworks st') = length (fireworks st)"
    if h: "i < length (fireworks st) \<and> fireworks st ! i = Rocket r \<and> targetY r \<le> fw_y r + fw_speed r"
    for st i r
  proof -
    obtain ex k' where c: "createExplosion Color rnd (random_calls st) (fw_x r) (fw_y r + fw_speed r) (fw_z r) = (ex, k')"
      by (cases "createExplosion Color rnd (random_calls st) (fw_x r) (fw_y r + fw_speed r) (fw_z r)")
    from h have i: "i < length (fireworks st)" by simp
    from h update_firework_burst[OF _ _ _ c] have
      "update_firework Color rnd i st =
        Inr (st\<lparr> fireworks := splice1 (fireworks st) i @ [Explosion ex], random_calls := k' \<rparr>)" by blast
    then show ?thesis using length_splice1[OF i] i by simp
  qed
qed

text \<open>
  A frame on the empty pool at spawn rate \<open>1\<close>, and the spawn on a pool of eight explosions.
\<close>

theorem pool_capacity_witness:
  "length (fireworks (pool_init 0)) \<le> 8 \<and>
   (\<exists>st'. updateFireworks hex_color (\<lambda>k. 0) 1 (pool_init 0) = Inr st' \<and> length (fireworks st') \<le> 8) \<and>
   8 \<le> length (fireworks \<lparr> fireworks = replicate 8 (Explosion
          \<lparr> positions = [0, 10, 0], fw_colors = [1, 1, 1], opacity = 1,
            velocities = [(0, 0.1, 0)], life = 1, decay = 0.01 \<rparr>), random_calls = 0 \<rparr>) \<and>
   fireworks (spawn_rocket (\<lambda>k. 0) 1 \<lparr> fireworks = replicate 8 (Explosion
          \<lparr> positions = [0, 10, 0], fw_colors = [1, 1, 1], opacity = 1,
            velocities = [(0, 0.1, 0)], life = 1, decay = 0.01 \<rparr>), random_calls = 0 \<rparr>)
     = replicate 8 (Explosion
          \<lparr> positions = [0, 10, 0], fw_colors = [1, 1, 1], opacity = 1,
            velocities = [(0, 0.1, 0)], life = 1, decay = 0.01 \<rparr>)"
proof -
  define p where "p = \<lparr> fireworks = replicate 8 (Explosion
          \<lparr> positions = [0, 10, 0], fw_colors = [1, 1, 1], opacity = 1,
            velocities = [(0, 0.1::real, 0)], life = 1, decay = 0.01 \<rparr>), random_calls = 0 \<rparr>"
  note t = pool_never_exceeds_capacity[of hex_color "\<lambda>k. 0" "[]" 0 1]
  have a: "length (fireworks (pool_init 0)) \<le> 8" by (simp add: pool_init_def)
  from t a have b: "\<exists>st'. updateFireworks hex_color (\<lambda>k. 0) 1 (pool_init 0) = Inr st' \<and> length (fireworks st') \<le> 8"
    by blast
  have c: "8 \<le> length (fireworks p)" by (simp add: p_def)
  from t c have "spawn_rocket (\<lambda>k. 0) 1 p = p\<lparr> random_calls := random_calls p + 1 \<rparr>" by blast
  then have d: "fireworks (spawn_rocket (\<lambda>k. 0) 1 p) = fireworks p" by simp
  have e: "fireworks p = replicate 8 (Explosion
          \<lparr> positions = [0, 10, 0], fw_colors = [1, 1, 1], opacity = 1,
            velocities = [(0, 0.1, 0)], life = 1, decay = 0.01 \<rparr>)" by (simp add: p_def)
  from d e have d': "fireworks (spawn_rocket (\<lambda>k. 0) 1 p) = replicate 8 (Explosion
          \<lparr> positions = [0, 10, 0], fw_colors = [1, 1, 1], opacity = 1,
            velocities = [(0, 0.1, 0)], life = 1, decay = 0.01 \<rparr>)" by simp
  show ?thesis using a b c d' unfolding p_def by blast
qed

text \<open>
  Claim C2, as the code has it. When the updated altitude \<open>y + speed\<close> of the rocket at index
  \<open>i\<close> reaches its target, the same step removes the rocket from the pool and appends
  exactly one explosion, so the size of the pool is unchanged. All particles of the explosion
  start at \<open>(x, y + speed, z)\<close>: the \<open>x\<close> and \<open>z\<close> of the ascent and the updated altitude,
  which is at least the target and less than one step above it. The rest of the frame's loop
  keeps that explosion in the pool.
\<close>

theorem rocket_bursts_at_reached_altitude:
  assumes "i < length (fireworks st)" and "fireworks st ! i = Rocket r"
    and "targetY r \<le> fw_y r + fw_speed r"
  shows "\<exists>ex k'.
     createExplosion Color rnd (random_calls st) (fw_x r) (fw_y r + fw_speed r) (fw_z r) = (ex, k') \<and>
     update_firework Color rnd i st =
       Inr (st\<lparr> fireworks := splice1 (fireworks st) i @ [Explosion ex], random_calls := k' \<rparr>) \<and>
     length (splice1 (fireworks st) i @ [Explosion ex]) = length (fireworks st) \<and>
     length (velocities ex) = particleCount \<and> life ex = 1 \<and>
     (\<forall>j<particleCount. positions ex ! (j * 3) = fw_x r \<and>
          positions ex ! (j * 3 + 1) = fw_y r + fw_speed r \<and>
          positions ex ! (j * 3 + 2) = fw_z r) \<and>
     (rocket_ok r \<longrightarrow> fw_y r + fw_speed r < targetY r + fw_speed r) \<and>
     (\<forall>st''. update_loop Color rnd i
                (st\<lparr> fireworks := splice1 (fireworks st) i @ [Explosion ex], random_calls := k' \<rparr>)
              = Inr st'' \<longrightarrow> Explosion ex \<in> set (fireworks st''))"
proof -
  obtain ex k' where c: "createExplosion Color rnd (random_calls st) (fw_x r) (fw_y r + fw_speed r) (fw_z r) = (ex, k')"
    by (cases "createExplosion Color rnd (random_calls st) (fw_x r) (fw_y r + fw_speed r) (fw_z r)")
  define st1 where "st1 = st\<lparr> fireworks := splice1 (fireworks st) i @ [Explosion ex], random_calls := k' \<rparr>"
  note u = update_firework_burst[OF assms c]
  note p = createExplosion_props[OF c]
  have len: "length (splice1 (fireworks st) i @ [Explosion ex]) = length (fireworks st)"
    using length_splice1[OF assms(1)] assms(1) by simp
  have ov: "rocket_ok r \<longrightarrow> fw_y r + fw_speed r < targetY r + fw_speed r"
    by (simp add: rocket_ok_def)
  have keep: "Explosion ex \<in> set (fireworks st'')" if "update_loop Color rnd i st1 = Inr st''" for st''
  proof -
    have f1: "fireworks st1 = take i (fireworks st) @ drop (Suc i) (fireworks st) @ [Explosion ex]"
      by (simp add: st1_def splice1_def)
    have i1: "i \<le> length (fireworks st1)" unfolding f1 using assms(1) by simp
    have d: "drop i (fireworks st1) = drop (Suc i) (fireworks st) @ [Explosion ex]"
      unfolding f1 using assms(1) by simp
    from update_loop_suffix[OF i1 that] obtain A B where
      "fireworks st'' = A @ drop i (fireworks st1) @ B" by blast
    then show ?thesis unfolding d by simp
  qed
  from c u len p(6) p(1) p(7) ov keep show ?thesis unfolding st1_def by blast
qed

text \<open>
  A rocket at altitude \<open>7.95\<close> with speed \<open>0.15\<close> and target \<open>8\<close>, alone in the pool.
\<close>

theorem rocket_burst_witness:
  "(0::nat) < length (fireworks \<lparr> fireworks = [Rocket \<lparr> rocket_position = [18, 7.95, 0], rocket_color = 0xff4444,
        fw_x = 18, fw_y = 7.95, fw_z = 0, targetY = 8, fw_speed = 0.15 \<rparr>], random_calls = 0 \<rparr>) \<and>
   targetY \<lparr> rocket_position = [18, 7.95, 0], rocket_color = 0xff4444,
        fw_x = 18, fw_y = 7.95, fw_z = 0, targetY = 8, fw_speed = 0.15 \<rparr> \<le> 7.95 + 0.15 \<and>
   (\<exists>ex k'. update_firework hex_color (\<lambda>k. 0) 0
       \<lparr> fireworks = [Rocket \<lparr> rocket_position = [18, 7.95, 0], rocket_color = 0xff4444,
        fw_x = 18, fw_y = 7.95, fw_z = 0, targetY = 8, fw_speed = 0.15 \<rparr>], random_calls = 0 \<rparr>
      = Inr \<lparr> fireworks = [Explosion ex], random_calls = k' \<rparr> \<and> life ex = 1 \<and>
        positions ex ! 1 = 8.1)"
proof -
  define r where "r = \<lparr> rocket_position = [18, 7.95, 0], rocket_color = 0xff4444,
        fw_x = 18, fw_y = 7.95, fw_z = 0, targetY = 8, fw_speed = 0.15::real \<rparr>"
  define st where "st = \<lparr> fireworks = [Rocket r], random_calls = 0 \<rparr>"
  have h: "0 < length (fireworks st)" "fireworks st ! 0 = Rocket r" "targetY r \<le> fw_y r + fw_speed r"
    by (simp_all add: st_def r_def)
  from rocket_bursts_at_reached_altitude[OF h, of hex_color "\<lambda>k. 0"] obtain ex k' where
    u: "update_firework hex_color (\<lambda>k. 0) 0 st =
       Inr (st\<lparr> fireworks := splice1 (fireworks st) 0 @ [Explosion ex], random_calls := k' \<rparr>)"
    and l: "life ex = 1"
    and p: "\<forall>j<particleCount. positions ex ! (j * 3) = fw_x r \<and>
          positions ex ! (j * 3 + 1) = fw_y r + fw_speed r \<and>
          positions ex ! (j * 3 + 2) = fw_z r" by blast
  have "(0::nat) < particleCount" by (simp add: particleCount_def)
  with p have "positions ex ! (0 * 3 + 1) = fw_y r + fw_speed r" by blast
  then have p1: "positions ex ! 1 = 8.1" by (simp add: r_def)
  have u': "update_firework hex_color (\<lambda>k. 0) 0 st = Inr \<lparr> fireworks = [Explosion ex], random_calls = k' \<rparr>"
    unfolding u by (simp add: st_def splice1_def)
  have g: "\<exists>ex k'. update_firework hex_color (\<lambda>k. 0) 0 st
      = Inr \<lparr> fireworks = [Explosion ex], random_calls = k' \<rparr> \<and> life ex = 1 \<and> positions ex ! 1 = 8.1"
    using u' l p1 by blast
  have h3: "targetY r \<le> 7.95 + 0.15" by (simp add: r_def)
  show ?thesis using h(1) h3 g unfolding st_def r_def by blast
qed

text \<open>
  The explosion is not at the target altitude: a rocket at altitude \<open>7.95\<close> with speed
  \<open>0.15\<close> and target \<open>8\<close> (the state of a rocket drawn with \<open>Math.random() = 0\<close> after 53
  frames) bursts at \<open>(18, 8.1, 0)\<close>, and \<open>8.1\<close> is not its target altitude.
\<close>

theorem rocket_burst_position_counterexample:
  "rocket_ok \<lparr> rocket_position = [18, 7.95, 0], rocket_color = 0xff4444,
        fw_x = 18, fw_y = 7.95, fw_z = 0, targetY = 8, fw_speed = 0.15 \<rparr> \<and>
   update_firework hex_color (\<lambda>k. 0) 0
       \<lparr> fireworks = [Rocket \<lparr> rocket_position = [18, 7.95, 0], rocket_color = 0xff4444,
        fw_x = 18, fw_y = 7.95, fw_z = 0, targetY = 8, fw_speed = 0.15 \<rparr>], random_calls = 0 \<rparr>
     = Inr \<lparr> fireworks = [Explosion (fst (createExplosion hex_color (\<lambda>k. 0) 0 18 8.1 0))],
             random_calls = 401 \<rparr> \<and>
   (positions (fst (createExplosion hex_color (\<lambda>k. 0) 0 18 8.1 0)) ! 0,
    positions (fst (createExplosion hex_color (\<lambda>k. 0) 0 18 8.1 0)) ! 1,
    positions (fst (createExplosion hex_color (\<lambda>k. 0) 0 18 8.1 0)) ! 2) = (18, 8.1, 0) \<and>
   positions (fst (createExplosion hex_color (\<lambda>k. 0) 0 18 8.1 0)) ! 1 \<noteq>
     targetY \<lparr> rocket_position = [18, 7.95, 0], rocket_color = 0xff4444,
        fw_x = 18, fw_y = 7.95, fw_z = 0, targetY = 8, fw_speed = 0.15 \<rparr>"
proof -
  define r where "r = \<lparr> rocket_position = [18, 7.95, 0], rocket_color = 0xff4444,
        fw_x = 18, fw_y = 7.95, fw_z = 0, targetY = 8, fw_speed = 0.15::real \<rparr>"
  define st where "st = \<lparr> fireworks = [Rocket r], random_calls = 0 \<rparr>"
  define ex where "ex = fst (createExplosion hex_color (\<lambda>k. 0) 0 18 8.1 0)"
  define k' where "k' = snd (createExplosion hex_color (\<lambda>k. 0) 0 18 8.1 0)"
  have c0: "createExplosion hex_color (\<lambda>k. 0) 0 18 8.1 0 = (ex, k')" by (simp add: ex_def k'_def)
  have e: "fw_y r + fw_speed r = 8.1" "fw_x r = 18" "fw_z r = 0" "random_calls st = 0" by (simp_all add: r_def st_def)
  have c: "createExplosion hex_color (\<lambda>k. 0) (random_calls st) (fw_x r) (fw_y r + fw_speed r) (fw_z r) = (ex, k')"
    unfolding e by (rule c0)
  have h: "0 < length (fireworks st)" "fireworks st ! 0 = Rocket r" "targetY r \<le> fw_y r + fw_speed r"
    by (simp_all add: st_def r_def)
  note p = createExplosion_props[OF c0]
  have k: "k' = 401" using p(4) by (simp add: particleCount_def)
  have u: "update_firework hex_color (\<lambda>k. 0) 0 st = Inr \<lparr> fireworks = [Explosion ex], random_calls = 401 \<rparr>"
    unfolding update_firework_burst[OF h c] k by (simp add: st_def splice1_def)
  have "(0::nat) < particleCount" by (simp add: particleCount_def)
  with p(7) have "positions ex ! (0 * 3) = 18 \<and> positions ex ! (0 * 3 + 1) = 8.1 \<and> positions ex ! (0 * 3 + 2) = 0"
    by blast
  then have q: "(positions ex ! 0, positions ex ! 1, positions ex ! 2) = (18, 8.1, 0)"
    by (simp add: numeral_2_eq_2)
  then have n: "positions ex ! 1 \<noteq> targetY r" by (simp add: r_def)
  have ok: "rocket_ok r" by (simp add: rocket_ok_def r_def)
  show ?thesis using ok u q n unfolding st_def r_def ex_def by blast
qed

section \<open>The fireworks frame by frame\<close>

lemma map_filter_append: "List.map_filter f (xs @ ys) = List.map_filter f xs @ List.map_filter f ys"
  by (induction xs) (simp_all split: option.splits)

lemma map_filter_comp:
  "List.map_filter g (List.map_filter f xs) =
   List.map_filter (\<lambda>x. case f x of None \<Rightarrow> None | Some y \<Rightarrow> g y) xs"
  by (induction xs) (simp_all split: option.splits)

lemma entity_after_Suc_first:
  "entity_after (Suc n) f = (case entity_step f of None \<Rightarrow> None | Some f' \<Rightarrow> entity_after n f')"
proof (induction n)
  case 0 show ?case by (simp split: option.splits)
next
  case (Suc n)
  have "entity_after (Suc (Suc n)) f =
     (case entity_after (Suc n) f of None \<Rightarrow> None | Some f' \<Rightarrow> entity_step f')" by simp
  also have "\<dots> = (case entity_step f of None \<Rightarrow> None | Some f' \<Rightarrow> entity_after (Suc n) f')"
    unfolding Suc.IH by (simp split: option.splits)
  finally show ?case .
qed

lemma entity_after_Explosion:
  "entity_after n (Explosion e) = map_option Explosion (explosion_after n e)"
  by (induction n) (auto simp: entity_step_def split: option.splits)

lemma update_firework_keep:
  assumes "i < length (fireworks st)" "entity_step (fireworks st ! i) = Some f'"
  shows "update_firework Color rnd i st = Inr (st\<lparr> fireworks := (fireworks st)[i := f'] \<rparr>)"
  using assms
  by (auto simp: update_firework_def entity_step_def Let_def split: firework.splits if_splits)

lemma update_firework_expire:
  assumes "i < length (fireworks st)" "fireworks st ! i = Explosion e"
    "entity_step (fireworks st ! i) = None"
  shows "update_firework Color rnd i st = Inr (st\<lparr> fireworks := splice1 (fireworks st) i \<rparr>)"
  using assms
  by (auto simp: update_firework_def entity_step_def Let_def split: if_splits)

lemma update_firework_burst_entity:
  assumes "i < length (fireworks st)" "fireworks st ! i = Rocket r"
    "entity_step (fireworks st ! i) = None"
  shows "\<exists>ex k' x y z. createExplosion Color rnd (random_calls st) x y z = (ex, k') \<and>
     update_firework Color rnd i st =
       Inr (st\<lparr> fireworks := splice1 (fireworks st) i @ [Explosion ex], random_calls := k' \<rparr>)"
proof -
  from assms(2,3) have t: "targetY r \<le> fw_y r + fw_speed r"
    by (simp add: entity_step_def rocket_step_def Let_def split: if_splits)
  obtain ex k' where c: "createExplosion Color rnd (random_calls st) (fw_x r) (fw_y r + fw_speed r) (fw_z r) = (ex, k')"
    by (cases "createExplosion Color rnd (random_calls st) (fw_x r) (fw_y r + fw_speed r) (fw_z r)")
  from update_firework_burst[OF assms(1,2) t c] c show ?thesis by blast
qed

lemma splice1_snoc: "splice1 (xs @ x # ys) (length xs) = xs @ ys"
  by (simp add: splice1_def)

lemma fresh_explosion:
  assumes "rng_ok rnd" "createExplosion Color rnd k x y z = (ex, k')"
  shows "young 1 (Explosion ex)"
  using createExplosion_ok[OF assms] createExplosion_props(1)[OF assms(2)]
  by (simp add: young_def explosion_ok_def)

lemma update_loop_frame:
  assumes "rng_ok rnd"
  shows "fireworks st = xs @ done \<Longrightarrow>
     \<exists>st' new. update_loop Color rnd (length xs) st = Inr st' \<and>
        fireworks st' = List.map_filter entity_step xs @ done @ new \<and>
        list_all (young 1) new"
proof (induction xs arbitrary: st "done" rule: rev_induct)
  case Nil
  then have "update_loop Color rnd (length []) st = Inr st \<and>
        fireworks st = List.map_filter entity_step [] @ done @ [] \<and> list_all (young 1) []" by simp
  then show ?case by blast
next
  case (snoc x xs)
  have i: "length xs < length (fireworks st)" and n: "fireworks st ! length xs = x"
    using snoc.prems by simp_all
  have l: "update_loop Color rnd (length (xs @ [x])) st =
       (case update_firework Color rnd (length xs) st of Inl e \<Rightarrow> Inl e
        | Inr st1 \<Rightarrow> update_loop Color rnd (length xs) st1)" by simp
  have upd: "(fireworks st)[length xs := v] = xs @ v # done" for v
    using snoc.prems by simp
  have spl: "splice1 (fireworks st) (length xs) = xs @ done"
    using snoc.prems splice1_snoc[of xs x "done"] by simp
  show ?case
  proof (cases "entity_step x")
    case (Some f')
    from update_firework_keep[OF i, of f' Color rnd] Some n
    have u: "update_firework Color rnd (length xs) st = Inr (st\<lparr> fireworks := xs @ f' # done \<rparr>)"
      by (simp add: upd)
    have "fireworks (st\<lparr> fireworks := xs @ f' # done \<rparr>) = xs @ (f' # done)" by simp
    from snoc.IH[OF this] obtain st' new where
      r: "update_loop Color rnd (length xs) (st\<lparr> fireworks := xs @ f' # done \<rparr>) = Inr st'"
      and f: "fireworks st' = List.map_filter entity_step xs @ (f' # done) @ new"
      and y: "list_all (young 1) new" by blast
    have "fireworks st' = List.map_filter entity_step (xs @ [x]) @ done @ new"
      using f Some by (simp add: map_filter_append)
    with r y show ?thesis unfolding l u by auto
  next
    case None
    show ?thesis
    proof (cases x)
      case (Explosion e)
      from update_firework_expire[OF i, of e Color rnd] None n Explosion
      have u: "update_firework Color rnd (length xs) st = Inr (st\<lparr> fireworks := xs @ done \<rparr>)"
        by (simp add: spl)
      have "fireworks (st\<lparr> fireworks := xs @ done \<rparr>) = xs @ done" by simp
      from snoc.IH[OF this] obtain st' new where
        r: "update_loop Color rnd (length xs) (st\<lparr> fireworks := xs @ done \<rparr>) = Inr st'"
        and f: "fireworks st' = List.map_filter entity_step xs @ done @ new"
        and y: "list_all (young 1) new" by blast
      have "fireworks st' = List.map_filter entity_step (xs @ [x]) @ done @ new"
        using f None by (simp add: map_filter_append)
      with r y show ?thesis unfolding l u by auto
    next
      case (Rocket r)
      from update_firework_burst_entity[OF i, of r Color rnd] None n Rocket
      obtain ex k' x' y' z' where c: "createExplosion Color rnd (random_calls st) x' y' z' = (ex, k')"
        and u: "update_firework Color rnd (length xs) st =
          Inr (st\<lparr> fireworks := (xs @ done) @ [Explosion ex], random_calls := k' \<rparr>)"
        by (auto simp: spl)
      have "fireworks (st\<lparr> fireworks := (xs @ done) @ [Explosion ex], random_calls := k' \<rparr>)
          = xs @ (done @ [Explosion ex])" by simp
      from snoc.IH[OF this] obtain st' new where
        r: "update_loop Color rnd (length xs)
              (st\<lparr> fireworks := (xs @ done) @ [Explosion ex], random_calls := k' \<rparr>) = Inr st'"
        and f: "fireworks st' = List.map_filter entity_step xs @ (done @ [Explosion ex]) @ new"
        and y: "list_all (young 1) new" by blast
      have f': "fireworks st' = List.map_filter entity_step (xs @ [x]) @ done @ (Explosion ex # new)"
        using f None by (simp add: map_filter_append)
      have y': "list_all (young 1) (Explosion ex # new)"
        using y fresh_explosion[OF assms c] by simp
      from r f' y' show ?thesis unfolding l u by auto
    qed
  qed
qed

lemma map_filter_Some: "List.map_filter Some xs = xs"
  by (induction xs) simp_all

lemma list_all_map_filter:
  "(\<And>x y. x \<in> set xs \<Longrightarrow> f x = Some y \<Longrightarrow> P y) \<Longrightarrow> list_all P (List.map_filter f xs)"
  by (induction xs) (auto split: option.splits)

lemma young_mono: "young m f \<Longrightarrow> m \<le> m' \<Longrightarrow> young m' f"
  by (cases f) (auto simp: young_def)

lemma young_step:
  assumes "young m f" "entity_step f = Some f'"
  shows "young (Suc m) f'"
proof (cases f)
  case (Rocket r)
  with assms(2) show ?thesis by (auto simp: entity_step_def young_def split: if_splits)
next
  case (Explosion e)
  with assms(2) have f': "f' = Explosion (explosion_step e)"
    by (auto simp: entity_step_def split: if_splits)
  from assms(1) Explosion obtain n where n: "n < m" "life e = 1 - real n * decay e"
    and d: "0.01 \<le> decay e" "decay e < 0.015" by (auto simp: young_def)
  have "life (explosion_step e) = 1 - real (Suc n) * decay e"
    using n(2) by (simp add: explosion_step_fields algebra_simps)
  moreover have "Suc n < Suc m" using n(1) by simp
  ultimately show ?thesis unfolding f' using d
    by (auto simp: young_def explosion_step_fields simp del: of_nat_Suc)
qed

lemma young_after:
  "young j f \<Longrightarrow> entity_after m f = Some f' \<Longrightarrow> young (j + m) f'"
proof (induction m arbitrary: f')
  case 0 then show ?case by simp
next
  case (Suc m)
  from Suc.prems(2) obtain f1 where a: "entity_after m f = Some f1" and b: "entity_step f1 = Some f'"
    by (auto split: option.splits)
  from young_step[OF Suc.IH[OF Suc.prems(1) a] b] show ?case by simp
qed

lemma spawn_rocket_fireworks:
  "\<exists>sp. fireworks (spawn_rocket rnd rate st) = fireworks st @ sp \<and> list_all (young 0) sp"
proof (cases "rnd (random_calls st) < rate \<and> length (fireworks st) < 8")
  case True
  obtain r k' where c: "createRocket rnd (random_calls st + 1) = (r, k')"
    by (cases "createRocket rnd (random_calls st + 1)")
  from True c have "fireworks (spawn_rocket rnd rate st) = fireworks st @ [Rocket r]"
    by (simp add: spawn_rocket_def Let_def)
  moreover have "list_all (young 0) [Rocket r]" by (simp add: young_def)
  ultimately show ?thesis by blast
next
  case False
  then have "fireworks (spawn_rocket rnd rate st) = fireworks st @ []"
    by (auto simp: spawn_rocket_def Let_def)
  then show ?thesis by (intro exI[of _ "[]"]) simp
qed

lemma updateFireworks_frame:
  assumes "rng_ok rnd"
  shows "\<exists>st' added. updateFireworks Color rnd rate st = Inr st' \<and>
     fireworks st' = List.map_filter entity_step (fireworks st) @ added \<and>
     list_all (young 1) added"
proof -
  from spawn_rocket_fireworks[of rnd rate st] obtain sp where
    s: "fireworks (spawn_rocket rnd rate st) = fireworks st @ sp" and ys: "list_all (young 0) sp" by blast
  have "fireworks (spawn_rocket rnd rate st) = (fireworks st @ sp) @ []" using s by simp
  from update_loop_frame[OF assms this, of Color] obtain st' new where
    u: "update_loop Color rnd (length (fireworks st @ sp)) (spawn_rocket rnd rate st) = Inr st'"
    and f: "fireworks st' = List.map_filter entity_step (fireworks st @ sp) @ [] @ new"
    and y: "list_all (young 1) new" by blast
  have u': "updateFireworks Color rnd rate st = Inr st'"
    unfolding updateFireworks_def Let_def s using u by simp
  have f': "fireworks st' = List.map_filter entity_step (fireworks st) @ (List.map_filter entity_step sp @ new)"
    using f by (simp add: map_filter_append)
  have "list_all (young 1) (List.map_filter entity_step sp)"
  proof (rule list_all_map_filter)
    fix x y assume "x \<in> set sp" "entity_step x = Some y"
    with ys have "young 0 x" by (simp add: list_all_iff)
    from young_step[OF this \<open>entity_step x = Some y\<close>] show "young 1 y" by simp
  qed
  with y have "list_all (young 1) (List.map_filter entity_step sp @ new)" by simp
  with u' f' show ?thesis by blast
qed

lemma run_fireworks_frames:
  assumes "rng_ok rnd"
  shows "\<exists>st' added. run_fireworks Color rnd rates st = Inr st' \<and>
     fireworks st' = List.map_filter (entity_after (length rates)) (fireworks st) @ added \<and>
     list_all (young (length rates)) added"
proof (induction rates arbitrary: st)
  case Nil
  have "entity_after 0 = Some" by (rule ext) simp
  then have "List.map_filter (entity_after 0) (fireworks st) = fireworks st"
    by (simp only: map_filter_Some)
  then have "run_fireworks Color rnd [] st = Inr st \<and>
     fireworks st = List.map_filter (entity_after (length [])) (fireworks st) @ [] \<and>
     list_all (young (length [])) []" by simp
  then show ?case by blast
next
  case (Cons rate rates)
  define m where "m = length rates"
  from updateFireworks_frame[OF assms, of Color rate st] obtain st1 a1 where
    u: "updateFireworks Color rnd rate st = Inr st1"
    and f1: "fireworks st1 = List.map_filter entity_step (fireworks st) @ a1"
    and y1: "list_all (young 1) a1" by blast
  from Cons.IH[of st1] obtain st' a' where
    r: "run_fireworks Color rnd rates st1 = Inr st'"
    and f: "fireworks st' = List.map_filter (entity_after m) (fireworks st1) @ a'"
    and y: "list_all (young m) a'" unfolding m_def by blast
  have c: "(\<lambda>x. case entity_step x of None \<Rightarrow> None | Some y \<Rightarrow> entity_after m y) = entity_after (Suc m)"
    by (rule ext) (simp only: entity_after_Suc_first)
  have f': "fireworks st' = List.map_filter (entity_after (Suc m)) (fireworks st) @
       (List.map_filter (entity_after m) a1 @ a')"
    unfolding f f1 by (simp add: map_filter_append map_filter_comp c del: entity_after.simps)
  have "list_all (young (Suc m)) (List.map_filter (entity_after m) a1)"
  proof (rule list_all_map_filter)
    fix x y assume "x \<in> set a1" "entity_after m x = Some y"
    with y1 have "young 1 x" by (simp add: list_all_iff)
    from young_after[OF this \<open>entity_after m x = Some y\<close>] show "young (Suc m) y" by simp
  qed
  moreover have "list_all (young (Suc m)) a'"
    using y young_mono[of m _ "Suc m"] by (auto simp: list_all_iff)
  ultimately have y': "list_all (young (Suc m)) (List.map_filter (entity_after m) a1 @ a')" by simp
  have rr: "run_fireworks Color rnd (rate # rates) st = Inr st'" using u r by simp
  have l: "length (rate # rates) = Suc m" by (simp add: m_def)
  show ?case unfolding l using rr f' y' by blast
qed

lemma run_fireworks_at_index:
  assumes "rng_ok rnd" "i < length (fireworks st)" "fireworks st ! i = Explosion fw"
  shows "\<exists>st' added. run_fireworks Color rnd rates st = Inr st' \<and>
     fireworks st' =
       List.map_filter (entity_after (length rates)) (take i (fireworks st)) @
       (case explosion_after (length rates) fw of None \<Rightarrow> [] | Some fw' \<Rightarrow> [Explosion fw']) @
       List.map_filter (entity_after (length rates)) (drop (Suc i) (fireworks st)) @ added \<and>
     list_all (young (length rates)) added"
proof -
  from run_fireworks_frames[OF assms(1), of Color rates st] obtain st' added where
    r: "run_fireworks Color rnd rates st = Inr st'"
    and f: "fireworks st' = List.map_filter (entity_after (length rates)) (fireworks st) @ added"
    and y: "list_all (young (length rates)) added" by blast
  have d: "fireworks st = take i (fireworks st) @ [Explosion fw] @ drop (Suc i) (fireworks st)"
    using id_take_nth_drop[OF assms(2)] assms(3) by simp
  have "List.map_filter (entity_after (length rates)) (fireworks st) =
       List.map_filter (entity_after (length rates)) (take i (fireworks st)) @
       (case explosion_after (length rates) fw of None \<Rightarrow> [] | Some fw' \<Rightarrow> [Explosion fw']) @
       List.map_filter (entity_after (length rates)) (drop (Suc i) (fireworks st))"
    by (subst d) (simp add: map_filter_append entity_after_Explosion split: option.splits)
  with r f y show ?thesis by auto
qed

lemma updateFireworks_at_index:
  assumes "rng_ok rnd" "i < length (fireworks st)" "fireworks st ! i = Explosion fw"
  shows "\<exists>st' added. updateFireworks Color rnd rate st = Inr st' \<and>
     fireworks st' =
       List.map_filter entity_step (take i (fireworks st)) @
       (if life (explosion_step fw) \<le> 0 then [] else [Explosion (explosion_step fw)]) @
       List.map_filter entity_step (drop (Suc i) (fireworks st)) @ added \<and>
     list_all (young 1) added"
proof -
  from updateFireworks_frame[OF assms(1), of Color rate st] obtain st' added where
    r: "updateFireworks Color rnd rate st = Inr st'"
    and f: "fireworks st' = List.map_filter entity_step (fireworks st) @ added"
    and y: "list_all (young 1) added" by blast
  have d: "fireworks st = take i (fireworks st) @ [Explosion fw] @ drop (Suc i) (fireworks st)"
    using id_take_nth_drop[OF assms(2)] assms(3) by simp
  have "List.map_filter entity_step (fireworks st) =
       List.map_filter entity_step (take i (fireworks st)) @
       (if life (explosion_step fw) \<le> 0 then [] else [Explosion (explosion_step fw)]) @
       List.map_filter entity_step (drop (Suc i) (fireworks st))"
    by (subst d) (simp add: map_filter_append entity_step_def)
  with r f y show ?thesis by auto
qed

lemma reachable_explosion_age:
  assumes "rng_ok rnd"
  shows "\<exists>st'. run_fireworks Color rnd rates (pool_init k) = Inr st' \<and>
     (\<forall>e. Explosion e \<in> set (fireworks st') \<longrightarrow> (\<exists>n<100. life e = 1 - real n * decay e))"
proof -
  from run_fireworks_frames[OF assms, of Color rates "pool_init k"] obtain st' added where
    r: "run_fireworks Color rnd rates (pool_init k) = Inr st'"
    and f: "fireworks st' = added" and y: "list_all (young (length rates)) added"
    by (auto simp: pool_init_def)
  from run_fireworks_ok[OF assms pool_init_ok, of Color rates k] r have ok: "pool_ok st'" by simp
  have "\<exists>n<100. life e = 1 - real n * decay e" if e: "Explosion e \<in> set (fireworks st')" for e
  proof -
    from e y f have "young (length rates) (Explosion e)" by (simp add: list_all_iff)
    then obtain n where n: "life e = 1 - real n * decay e" and d: "0.01 \<le> decay e"
      by (auto simp: young_def)
    from e ok have "0 < life e" by (auto simp: pool_ok_def list_all_iff explosion_ok_def)
    with n have "real n * decay e < 1" by simp
    moreover have "real n * 0.01 \<le> real n * decay e" using d by (intro mult_left_mono) simp_all
    ultimately have "real n * 0.01 < 1" by linarith
    then have "real n < 100" by simp
    then have "n < 100" by simp
    with n show ?thesis by blast
  qed
  with r show ?thesis by blast
qed

text \<open>
  Claim C7. Every pool reached from the empty pool satisfies \<open>pool_ok\<close>. For an explosion
  at index \<open>i\<close> of such a pool the life is positive, the update step lowers it by the
  positive decay and sets the opacity to the new life, and the loop body removes the entity
  exactly when the new life is \<open>\<le> 0\<close>. Of the whole frame: \<open>updateFireworks\<close> returns a
  pool made of the entities before index \<open>i\<close> that stay, then this explosion after exactly
  one step unless that step spent its life, then the entities after index \<open>i\<close> that stay,
  then what the frame added (a spawned rocket, fresh explosions). Over any run of frames the
  same holds with \<open>n\<close> steps for \<open>n\<close> frames: the explosion is in the pool after \<open>n\<close>
  frames with life lowered by \<open>n\<close> decays, and it is absent exactly when \<open>n \<ge> 1\<close> and that
  life is \<open>\<le> 0\<close>.
\<close>

theorem burst_life_strictly_decreases:
  assumes "rng_ok rnd" and "pool_ok st" and "i < length (fireworks st)"
    and "fireworks st ! i = Explosion fw"
  shows "0 < life fw \<and> 0 < decay fw \<and>
     life (explosion_step fw) = life fw - decay fw \<and>
     life (explosion_step fw) < life fw \<and>
     opacity (explosion_step fw) = life (explosion_step fw) \<and>
     update_firework Color rnd i st =
       Inr (st\<lparr> fireworks := (if life (explosion_step fw) \<le> 0 then splice1 (fireworks st) i
                                else (fireworks st)[i := Explosion (explosion_step fw)]) \<rparr>) \<and>
     (0 < life (explosion_step fw) \<longrightarrow>
        (\<forall>st''. update_loop Color rnd i
                   (st\<lparr> fireworks := (fireworks st)[i := Explosion (explosion_step fw)] \<rparr>) = Inr st''
                 \<longrightarrow> Explosion (explosion_step fw) \<in> set (fireworks st''))) \<and>
     (\<forall>rates k. \<exists>st'. run_fireworks Color rnd rates (pool_init k) = Inr st' \<and> pool_ok st') \<and>
     (\<forall>rate. \<exists>st' added. updateFireworks Color rnd rate st = Inr st' \<and> pool_ok st' \<and>
        fireworks st' =
          List.map_filter entity_step (take i (fireworks st)) @
          (if life (explosion_step fw) \<le> 0 then [] else [Explosion (explosion_step fw)]) @
          List.map_filter entity_step (drop (Suc i) (fireworks st)) @ added \<and>
        list_all (young 1) added) \<and>
     (\<forall>rates. \<exists>st' added. run_fireworks Color rnd rates st = Inr st' \<and> pool_ok st' \<and>
        fireworks st' =
          List.map_filter (entity_after (length rates)) (take i (fireworks st)) @
          (case explosion_after (length rates) fw of None \<Rightarrow> [] | Some fw' \<Rightarrow> [Explosion fw']) @
          List.map_filter (entity_after (length rates)) (drop (Suc i) (fireworks st)) @ added \<and>
        list_all (young (length rates)) added) \<and>
     (\<forall>n. (explosion_after n fw = None) = (1 \<le> n \<and> life fw - real n * decay fw \<le> 0)) \<and>
     (\<forall>n fw'. explosion_after n fw = Some fw' \<longrightarrow>
        life fw' = life fw - real n * decay fw \<and> (1 \<le> n \<longrightarrow> opacity fw' = life fw'))"
proof -
  from assms(2,3,4) have ok: "explosion_ok fw" by (auto simp: pool_ok_def list_all_length)
  then have l: "0 < life fw" and d: "0 < decay fw" by (simp_all add: explosion_ok_def)
  have s: "life (explosion_step fw) = life fw - decay fw"
    "opacity (explosion_step fw) = life (explosion_step fw)" by (simp_all add: explosion_step_fields)
  have lt: "life (explosion_step fw) < life fw" unfolding s using d by simp
  have u: "update_firework Color rnd i st =
       Inr (st\<lparr> fireworks := (if life (explosion_step fw) \<le> 0 then splice1 (fireworks st) i
                                else (fireworks st)[i := Explosion (explosion_step fw)]) \<rparr>)"
    using update_firework_explosion[OF assms(3,4), of Color rnd] by (simp add: explosion_step_fields)
  have keep: "Explosion (explosion_step fw) \<in> set (fireworks st'')"
    if "update_loop Color rnd i (st\<lparr> fireworks := (fireworks st)[i := Explosion (explosion_step fw)] \<rparr>) = Inr st''"
    for st''
  proof -
    define st1 where "st1 = st\<lparr> fireworks := (fireworks st)[i := Explosion (explosion_step fw)] \<rparr>"
    have i1: "i \<le> length (fireworks st1)" using assms(3) by (simp add: st1_def)
    have dr: "drop i (fireworks st1) = Explosion (explosion_step fw) # drop (Suc i) (fireworks st)"
      using assms(3) by (simp add: st1_def drop_update_cancel Cons_nth_drop_Suc[symmetric] upd_conv_take_nth_drop)
    from that have "update_loop Color rnd i st1 = Inr st''" by (simp add: st1_def)
    from update_loop_suffix[OF i1 this] obtain A B where
      "fireworks st'' = A @ drop i (fireworks st1) @ B" by blast
    then show ?thesis unfolding dr by simp
  qed
  have reach: "\<exists>st'. run_fireworks Color rnd rates (pool_init k) = Inr st' \<and> pool_ok st'" for rates k
    using run_fireworks_ok[OF assms(1) pool_init_ok] .
  have frame: "\<exists>st' added. updateFireworks Color rnd rate st = Inr st' \<and> pool_ok st' \<and>
        fireworks st' =
          List.map_filter entity_step (take i (fireworks st)) @
          (if life (explosion_step fw) \<le> 0 then [] else [Explosion (explosion_step fw)]) @
          List.map_filter entity_step (drop (Suc i) (fireworks st)) @ added \<and>
        list_all (young 1) added" for rate
    using updateFireworks_at_index[OF assms(1,3,4), of Color rate]
      updateFireworks_ok[OF assms(1,2), of Color rate] by auto
  have frames: "\<exists>st' added. run_fireworks Color rnd rates st = Inr st' \<and> pool_ok st' \<and>
        fireworks st' =
          List.map_filter (entity_after (length rates)) (take i (fireworks st)) @
          (case explosion_after (length rates) fw of None \<Rightarrow> [] | Some fw' \<Rightarrow> [Explosion fw']) @
          List.map_filter (entity_after (length rates)) (drop (Suc i) (fireworks st)) @ added \<and>
        list_all (young (length rates)) added" for rates
    using run_fireworks_at_index[OF assms(1,3,4), of Color rates]
      run_fireworks_ok[OF assms(1,2), of Color rates] by auto
  have none: "(explosion_after n fw = None) = (1 \<le> n \<and> life fw - real n * decay fw \<le> 0)" for n
    by (rule explosion_after_None_iff[OF d])
  have some: "life fw' = life fw - real n * decay fw \<and> (1 \<le> n \<longrightarrow> opacity fw' = life fw')"
    if "explosion_after n fw = Some fw'" for n fw'
  proof -
    have "opacity fw' = life fw'" if "1 \<le> n"
    proof -
      from that obtain m where m: "n = Suc m" by (cases n) simp_all
      from \<open>explosion_after n fw = Some fw'\<close> obtain fw1 where "fw' = explosion_step fw1"
        unfolding m by (auto split: option.splits if_splits)
      then show ?thesis by (simp add: explosion_step_fields)
    qed
    with explosion_after_life[OF that] show ?thesis by blast
  qed
  from l d s lt u keep reach frame frames none some show ?thesis by blast
qed

text \<open>
  A pool of one fresh explosion with decay \<open>0.01\<close>, at spawn rate \<open>0\<close>: the frame returns
  the pool holding its step alone, with life and opacity \<open>0.99\<close>.
\<close>

theorem burst_life_witness:
  "rng_ok (\<lambda>k. 0) \<and>
   pool_ok \<lparr> fireworks = [Explosion \<lparr> positions = [0, 10, 0], fw_colors = [1, 1, 1], opacity = 1,
            velocities = [(0, 0.1, 0)], life = 1, decay = 0.01 \<rparr>], random_calls = 0 \<rparr> \<and>
   life (explosion_step \<lparr> positions = [0, 10, 0], fw_colors = [1, 1, 1], opacity = 1,
            velocities = [(0, 0.1, 0)], life = 1, decay = 0.01 \<rparr>) = 0.99 \<and>
   opacity (explosion_step \<lparr> positions = [0, 10, 0], fw_colors = [1, 1, 1], opacity = 1,
            velocities = [(0, 0.1, 0)], life = 1, decay = 0.01 \<rparr>) = 0.99 \<and>
   update_firework hex_color (\<lambda>k. 0) 0
       \<lparr> fireworks = [Explosion \<lparr> positions = [0, 10, 0], fw_colors = [1, 1, 1], opacity = 1,
            velocities = [(0, 0.1, 0)], life = 1, decay = 0.01 \<rparr>], random_calls = 0 \<rparr> =
     Inr \<lparr> fireworks = [Explosion (explosion_step \<lparr> positions = [0, 10, 0], fw_colors = [1, 1, 1],
            opacity = 1, velocities = [(0, 0.1, 0)], life = 1, decay = 0.01 \<rparr>)], random_calls = 0 \<rparr> \<and>
   updateFireworks hex_color (\<lambda>k. 0) 0
       \<lparr> fireworks = [Explosion \<lparr> positions = [0, 10, 0], fw_colors = [1, 1, 1], opacity = 1,
            velocities = [(0, 0.1, 0)], life = 1, decay = 0.01 \<rparr>], random_calls = 0 \<rparr> =
     Inr \<lparr> fireworks = [Explosion (explosion_step \<lparr> positions = [0, 10, 0], fw_colors = [1, 1, 1],
            opacity = 1, velocities = [(0, 0.1, 0)], life = 1, decay = 0.01 \<rparr>)], random_calls = 1 \<rparr> \<and>
   (\<exists>st' added. updateFireworks hex_color (\<lambda>k. 0) 0
       \<lparr> fireworks = [Explosion \<lparr> positions = [0, 10, 0], fw_colors = [1, 1, 1], opacity = 1,
            velocities = [(0, 0.1, 0)], life = 1, decay = 0.01 \<rparr>], random_calls = 0 \<rparr> = Inr st' \<and>
      fireworks st' = Explosion (explosion_step \<lparr> positions = [0, 10, 0], fw_colors = [1, 1, 1],
            opacity = 1, velocities = [(0, 0.1, 0)], life = 1, decay = 0.01 \<rparr>) # added)"
proof -
  define fw where "fw = \<lparr> positions = [0, 10, 0], fw_colors = [1, 1, 1], opacity = 1,
            velocities = [(0, 0.1::real, 0)], life = 1, decay = 0.01 \<rparr>"
  define st where "st = \<lparr> fireworks = [Explosion fw], random_calls = 0 \<rparr>"
  have r: "rng_ok (\<lambda>k. 0)" by (simp add: rng_ok_def)
  have ok: "pool_ok st" by (simp add: pool_ok_def st_def fw_def explosion_ok_def)
  have h: "0 < length (fireworks st)" "fireworks st ! 0 = Explosion fw" by (simp_all add: st_def)
  note t = burst_life_strictly_decreases[OF r ok h, of hex_color]
  from t have a: "life (explosion_step fw) = life fw - decay fw" by blast
  from t have b: "opacity (explosion_step fw) = life (explosion_step fw)" by blast
  from t have c: "update_firework hex_color (\<lambda>k. 0) 0 st =
       Inr (st\<lparr> fireworks := (if life (explosion_step fw) \<le> 0 then splice1 (fireworks st) 0
                                else (fireworks st)[0 := Explosion (explosion_step fw)]) \<rparr>)" by blast
  from t have f: "\<exists>st' added. updateFireworks hex_color (\<lambda>k. 0) 0 st = Inr st' \<and> pool_ok st' \<and>
        fireworks st' =
          List.map_filter entity_step (take 0 (fireworks st)) @
          (if life (explosion_step fw) \<le> 0 then [] else [Explosion (explosion_step fw)]) @
          List.map_filter entity_step (drop (Suc 0) (fireworks st)) @ added \<and>
        list_all (young 1) added" by blast
  have a': "life (explosion_step fw) = 0.99" unfolding a by (simp add: fw_def)
  have b': "opacity (explosion_step fw) = 0.99" unfolding b a' ..
  have c': "update_firework hex_color (\<lambda>k. 0) 0 st =
     Inr \<lparr> fireworks = [Explosion (explosion_step fw)], random_calls = 0 \<rparr>"
    unfolding c a' by (simp add: st_def)
  have sp: "spawn_rocket (\<lambda>k. 0) 0 st = st\<lparr> random_calls := 1 \<rparr>"
    by (simp add: spawn_rocket_def st_def)
  have c1: "update_firework hex_color (\<lambda>k. 0) 0 (st\<lparr> random_calls := 1 \<rparr>) =
     Inr \<lparr> fireworks = [Explosion (explosion_step fw)], random_calls = 1 \<rparr>"
    using update_firework_explosion[of 0 "st\<lparr> random_calls := 1 \<rparr>" fw hex_color "\<lambda>k. 0"] a'
    by (simp add: st_def explosion_step_fields)
  have e: "updateFireworks hex_color (\<lambda>k. 0) 0 st =
     Inr \<lparr> fireworks = [Explosion (explosion_step fw)], random_calls = 1 \<rparr>"
    unfolding updateFireworks_def Let_def sp using c1 by (simp add: st_def)
  from f a' have f': "\<exists>st' added. updateFireworks hex_color (\<lambda>k. 0) 0 st = Inr st' \<and>
      fireworks st' = Explosion (explosion_step fw) # added" by (auto simp: st_def)
  show ?thesis using r ok a' b' c' e f' unfolding st_def fw_def by blast
qed

text \<open>
  Claim C10. An explosion made by \<open>createExplosion\<close> starts with life \<open>1\<close> and a decay in
  \<open>[0.01, 0.015)\<close>. Wherever it stands in a pool, after a run of \<open>n\<close> frames of
  \<open>updateFireworks\<close> the pool holds, in its place, the explosion after \<open>n\<close> steps (life
  \<open>1 - n * decay\<close>) or nothing; it is still there after 66 frames and gone after 100 or
  more, the rest of the pool being the other entities that stay and those added during the
  run. In every pool reached from the empty pool, every explosion has been stepped fewer
  than 100 times.
\<close>

theorem burst_bounded_lifetime:
  assumes "rng_ok rnd" and "createExplosion Color rnd k x y z = (fw, k')"
  shows "life fw = 1 \<and> 0.01 \<le> decay fw \<and> decay fw < 0.015 \<and>
    (\<forall>n fw'. explosion_after n fw = Some fw' \<longrightarrow>
        life fw' = 1 - real n * decay fw \<and> decay fw' = decay fw) \<and>
    (\<forall>n\<ge>100. explosion_after n fw = None) \<and>
    (\<forall>n\<le>66. explosion_after n fw \<noteq> None) \<and>
    (\<forall>fw' st i. i < length (fireworks st) \<and> fireworks st ! i = Explosion fw' \<longrightarrow>
        update_firework Color rnd i st =
          Inr (st\<lparr> fireworks := (if life (explosion_step fw') \<le> 0 then splice1 (fireworks st) i
                                   else (fireworks st)[i := Explosion (explosion_step fw')]) \<rparr>)) \<and>
    (\<forall>st i rates. i < length (fireworks st) \<and> fireworks st ! i = Explosion fw \<longrightarrow>
        (\<exists>st' added. run_fireworks Color rnd rates st = Inr st' \<and>
           fireworks st' =
             List.map_filter (entity_after (length rates)) (take i (fireworks st)) @
             (case explosion_after (length rates) fw of None \<Rightarrow> [] | Some fw' \<Rightarrow> [Explosion fw']) @
             List.map_filter (entity_after (length rates)) (drop (Suc i) (fireworks st)) @ added \<and>
           list_all (young (length rates)) added)) \<and>
    (\<forall>st i rates. i < length (fireworks st) \<and> fireworks st ! i = Explosion fw \<and>
          100 \<le> length rates \<longrightarrow>
        (\<exists>st' added. run_fireworks Color rnd rates st = Inr st' \<and>
           fireworks st' =
             List.map_filter (entity_after (length rates)) (take i (fireworks st)) @
             List.map_filter (entity_after (length rates)) (drop (Suc i) (fireworks st)) @ added \<and>
           list_all (young (length rates)) added)) \<and>
    (\<forall>rates k0. \<exists>st'. run_fireworks Color rnd rates (pool_init k0) = Inr st' \<and>
        (\<forall>e. Explosion e \<in> set (fireworks st') \<longrightarrow> (\<exists>n<100. life e = 1 - real n * decay e)))"
proof -
  from createExplosion_ok[OF assms] have ok: "0.01 \<le> decay fw" "decay fw < 0.015"
    by (simp_all add: explosion_ok_def)
  from createExplosion_props(1)[OF assms(2)] have l: "life fw = 1" .
  from ok have d: "0 < decay fw" by simp
  have a: "explosion_after n fw = None" if "100 \<le> n" for n
  proof -
    from that have "100 \<le> real n" by simp
    then have "100 * decay fw \<le> real n * decay fw" using d by (intro mult_right_mono) simp_all
    moreover have "1 \<le> 100 * decay fw" using ok(1) by simp
    ultimately have "1 \<le> real n * decay fw" by linarith
    with that show ?thesis unfolding explosion_after_None_iff[OF d] l by simp
  qed
  have b: "explosion_after n fw \<noteq> None" if "n \<le> 66" for n
  proof -
    from that have "real n \<le> 66" by simp
    then have "real n * decay fw \<le> 66 * decay fw" using d by (intro mult_right_mono) simp_all
    moreover have "66 * decay fw < 1" using ok(2) by simp
    ultimately have "real n * decay fw < 1" by linarith
    then show ?thesis unfolding explosion_after_None_iff[OF d] l by simp
  qed
  have c: "life fw' = 1 - real n * decay fw \<and> decay fw' = decay fw"
    if "explosion_after n fw = Some fw'" for n fw'
    using explosion_after_life[OF that] l by simp
  have e: "update_firework Color rnd i st =
          Inr (st\<lparr> fireworks := (if life (explosion_step fw') \<le> 0 then splice1 (fireworks st) i
                                   else (fireworks st)[i := Explosion (explosion_step fw')]) \<rparr>)"
    if "i < length (fireworks st) \<and> fireworks st ! i = Explosion fw'" for fw' st i
    using that update_firework_explosion[of i st fw' Color rnd] by (simp add: explosion_step_fields)
  have f: "\<exists>st' added. run_fireworks Color rnd rates st = Inr st' \<and>
           fireworks st' =
             List.map_filter (entity_after (length rates)) (take i (fireworks st)) @
             (case explosion_after (length rates) fw of None \<Rightarrow> [] | Some fw' \<Rightarrow> [Explosion fw']) @
             List.map_filter (entity_after (length rates)) (drop (Suc i) (fireworks st)) @ added \<and>
           list_all (young (length rates)) added"
    if "i < length (fireworks st) \<and> fireworks st ! i = Explosion fw" for st i rates
    using that run_fireworks_at_index[OF assms(1), of i st fw Color rates] by blast
  have g: "\<exists>st' added. run_fireworks Color rnd rates st = Inr st' \<and>
           fireworks st' =
             List.map_filter (entity_after (length rates)) (take i (fireworks st)) @
             List.map_filter (entity_after (length rates)) (drop (Suc i) (fireworks st)) @ added \<and>
           list_all (young (length rates)) added"
    if h: "i < length (fireworks st) \<and> fireworks st ! i = Explosion fw \<and> 100 \<le> length rates"
    for st i rates
  proof -
    from h have "explosion_after (length rates) fw = None" using a by blast
    with f[of i st rates] h show ?thesis by simp
  qed
  have r: "\<exists>st'. run_fireworks Color rnd rates (pool_init k0) = Inr st' \<and>
        (\<forall>e. Explosion e \<in> set (fireworks st') \<longrightarrow> (\<exists>n<100. life e = 1 - real n * decay e))"
    for rates k0 by (rule reachable_explosion_age[OF assms(1)])
  from l ok a b c e f g r show ?thesis by blast
qed

text \<open>
  The explosion created at \<open>(18, 8.1, 0)\<close> with every draw \<open>0\<close>, hence decay \<open>0.01\<close>, alone in
  the pool: followed on its own it is there after 66 steps and gone after 100, and after 100
  frames at spawn rate \<open>0\<close> the pool holds only entities younger than 100 frames.
\<close>

theorem burst_bounded_lifetime_witness:
  "rng_ok (\<lambda>k. 0) \<and>
   createExplosion hex_color (\<lambda>k. 0) 0 18 8.1 0 =
     (fst (createExplosion hex_color (\<lambda>k. 0) 0 18 8.1 0), snd (createExplosion hex_color (\<lambda>k. 0) 0 18 8.1 0)) \<and>
   (100::nat) \<le> 100 \<and>
   explosion_after 100 (fst (createExplosion hex_color (\<lambda>k. 0) 0 18 8.1 0)) = None \<and>
   (66::nat) \<le> 66 \<and>
   explosion_after 66 (fst (createExplosion hex_color (\<lambda>k. 0) 0 18 8.1 0)) \<noteq> None \<and>
   (\<exists>st'. run_fireworks hex_color (\<lambda>k. 0) (replicate 100 0)
            \<lparr> fireworks = [Explosion (fst (createExplosion hex_color (\<lambda>k. 0) 0 18 8.1 0))],
              random_calls = 401 \<rparr> = Inr st' \<and>
          list_all (young 100) (fireworks st'))"
proof -
  define fw where "fw = fst (createExplosion hex_color (\<lambda>k. 0) 0 18 8.1 0)"
  define st where "st = \<lparr> fireworks = [Explosion fw], random_calls = 401 \<rparr>"
  have r: "rng_ok (\<lambda>k. 0)" by (simp add: rng_ok_def)
  have c: "createExplosion hex_color (\<lambda>k. 0) 0 18 8.1 0 =
     (fw, snd (createExplosion hex_color (\<lambda>k. 0) 0 18 8.1 0))"
    by (simp add: fw_def)
  note t = burst_bounded_lifetime[OF r c]
  have h: "(100::nat) \<le> 100" "(66::nat) \<le> 66" by simp_all
  from t h(1) have a: "explosion_after 100 fw = None" by blast
  from t h(2) have b: "explosion_after 66 fw \<noteq> None" by blast
  have i: "0 < length (fireworks st) \<and> fireworks st ! 0 = Explosion fw \<and>
      100 \<le> length (replicate 100 (0::real))" by (simp add: st_def)
  from t i have "\<exists>st' added. run_fireworks hex_color (\<lambda>k. 0) (replicate 100 0) st = Inr st' \<and>
           fireworks st' =
             List.map_filter (entity_after (length (replicate 100 (0::real)))) (take 0 (fireworks st)) @
             List.map_filter (entity_after (length (replicate 100 (0::real)))) (drop (Suc 0) (fireworks st)) @ added \<and>
           list_all (young (length (replicate 100 (0::real)))) added" by blast
  then have g: "\<exists>st'. run_fireworks hex_color (\<lambda>k. 0) (replicate 100 0) st = Inr st' \<and>
          list_all (young 100) (fireworks st')" by (auto simp: st_def)
  show ?thesis using r c h a b g unfolding st_def fw_def by blast
qed

section \<open>Properties of the highlight interaction\<close>

lemma take3: "k + 3 \<le> length xs \<Longrightarrow> take (k + 3) xs = take k xs @ [xs ! k, xs ! (k + 1), xs ! (k + 2)]"
proof -
  assume a: "k + 3 \<le> length xs"
  have "take (Suc (Suc (Suc k))) xs = take k xs @ [xs ! k, xs ! Suc k, xs ! Suc (Suc k)]"
    using a by (simp add: take_Suc_conv_app_nth)
  then show ?thesis by (simp add: numeral_3_eq_3 numeral_2_eq_2)
qed

lemma length_write3: "length (write3 arr i c) = length arr"
  by (cases c) (simp add: write3_def)

lemma write3_take:
  assumes "n * 3 + 3 \<le> length arr"
  shows "take (n * 3 + 3) (write3 arr n (r, g, b)) = take (n * 3) arr @ [r, g, b]"
proof -
  have l: "n * 3 + 3 \<le> length (write3 arr n (r, g, b))" using assms by (simp add: length_write3)
  show ?thesis unfolding take3[OF l] using assms by (simp add: write3_def nth_list_update)
qed

lemma color_at_write3:
  assumes "length arr = count * 3" "j < count"
  shows "color_at (write3 arr i c) j = (if j = i then c else color_at arr j)"
proof (cases "j = i")
  case True
  with assms have "i * 3 + 2 < length arr" by simp
  then show ?thesis using True by (cases c) (simp add: color_at_def write3_def nth_list_update)
next
  case False
  then have ne: "j * 3 \<noteq> i * 3" "j * 3 \<noteq> i * 3 + 1" "j * 3 \<noteq> i * 3 + 2"
        "j * 3 + 1 \<noteq> i * 3" "j * 3 + 1 \<noteq> i * 3 + 1" "j * 3 + 1 \<noteq> i * 3 + 2"
        "j * 3 + 2 \<noteq> i * 3" "j * 3 + 2 \<noteq> i * 3 + 1" "j * 3 + 2 \<noteq> i * 3 + 2" by presburger+
  show ?thesis using False by (cases c) (simp add: color_at_def write3_def nth_list_update ne)
qed

lemma ornament_colors_fold:
  "n * 3 \<le> length (originalColors g) \<Longrightarrow> take (length (colors g)) (originalColors g) = colors g \<Longrightarrow>
   length (colors g) = 0 \<Longrightarrow>
   length (originalColors (fold (ornament_step Color rnd) [0..<n] g)) = length (originalColors g) \<and>
   length (colors (fold (ornament_step Color rnd) [0..<n] g)) = n * 3 \<and>
   take (n * 3) (originalColors (fold (ornament_step Color rnd) [0..<n] g)) =
     colors (fold (ornament_step Color rnd) [0..<n] g) \<and>
   draws (fold (ornament_step Color rnd) [0..<n] g) = draws g + 4 * n \<and>
   (\<forall>j<n. color_at (colors (fold (ornament_step Color rnd) [0..<n] g)) j =
           pick_color Color (rnd (draws g + 4 * j + 3)))"
proof (induction n)
  case 0 then show ?case by simp
next
  case (Suc n)
  define g1 where "g1 = fold (ornament_step Color rnd) [0..<n] g"
  have e: "fold (ornament_step Color rnd) [0..<Suc n] g = ornament_step Color rnd n g1"
    by (simp add: g1_def)
  from Suc have IH: "length (originalColors g1) = length (originalColors g)"
    "length (colors g1) = n * 3" "take (n * 3) (originalColors g1) = colors g1"
    "draws g1 = draws g + 4 * n"
    "\<forall>j<n. color_at (colors g1) j = pick_color Color (rnd (draws g + 4 * j + 3))"
    by (simp_all add: g1_def)
  obtain r gg b where c: "pick_color Color (rnd (draws g1 + 3)) = (r, gg, b)"
    by (cases "pick_color Color (rnd (draws g1 + 3))")
  have o: "originalColors (ornament_step Color rnd n g1) = write3 (originalColors g1) n (r, gg, b)"
    and cl: "colors (ornament_step Color rnd n g1) = colors g1 @ [r, gg, b]"
    and dr: "draws (ornament_step Color rnd n g1) = draws g1 + 4"
    by (simp_all add: ornament_step_def Let_def c)
  have le: "n * 3 + 3 \<le> length (originalColors g1)" using Suc.prems(1) IH(1) by simp
  have s3: "Suc n * 3 = n * 3 + 3" by simp
  have t: "take (Suc n * 3) (originalColors (ornament_step Color rnd n g1)) = colors (ornament_step Color rnd n g1)"
    unfolding o cl s3 write3_take[OF le] IH(3) by (rule refl)
  have ca: "\<forall>j<Suc n. color_at (colors (ornament_step Color rnd n g1)) j =
           pick_color Color (rnd (draws g + 4 * j + 3))"
  proof (intro allI impI)
    fix j assume j: "j < Suc n"
    show "color_at (colors (ornament_step Color rnd n g1)) j = pick_color Color (rnd (draws g + 4 * j + 3))"
    proof (cases "j = n")
      case True
      then show ?thesis unfolding cl using IH(2,4) c by (simp add: color_at_def nth_append)
    next
      case False
      with j have jn: "j < n" by simp
      then have "j * 3 + 2 < length (colors g1)" using IH(2) by simp
      then have "color_at (colors g1 @ [r, gg, b]) j = color_at (colors g1) j"
        by (simp add: color_at_def nth_append)
      then show ?thesis unfolding cl using IH(5) jn by simp
    qed
  qed
  show ?case unfolding e using o cl dr IH t ca by (simp add: length_write3)
qed

lemma build_ornaments_colors:
  "originalColors (build_ornaments Color N rnd k) = colors (build_ornaments Color N rnd k)"
  "length (colors (build_ornaments Color N rnd k)) = N * 3"
  "j < N \<Longrightarrow> color_at (originalColors (build_ornaments Color N rnd k)) j = pick_color Color (rnd (k + 4 * j + 3))"
proof -
  define g0 where "g0 = \<lparr> ornaments_mesh = replicate N identity_instance, colors = [],
         originalColors = replicate (N * 3) (0::real), draws = k \<rparr>"
  have b: "build_ornaments Color N rnd k = fold (ornament_step Color rnd) [0..<N] g0"
    by (simp add: build_ornaments_def g0_def)
  have "N * 3 \<le> length (originalColors g0)" "take (length (colors g0)) (originalColors g0) = colors g0"
    "length (colors g0) = 0" by (simp_all add: g0_def)
  note f = ornament_colors_fold[OF this, of Color rnd]
  from f have l: "length (originalColors (build_ornaments Color N rnd k)) = N * 3"
    unfolding b by (simp add: g0_def)
  from f have t: "take (N * 3) (originalColors (build_ornaments Color N rnd k)) = colors (build_ornaments Color N rnd k)"
    unfolding b by simp
  show eq: "originalColors (build_ornaments Color N rnd k) = colors (build_ornaments Color N rnd k)"
    using t l by simp
  show "length (colors (build_ornaments Color N rnd k)) = N * 3" using f unfolding b by simp
  show "j < N \<Longrightarrow> color_at (originalColors (build_ornaments Color N rnd k)) j = pick_color Color (rnd (k + 4 * j + 3))"
    unfolding eq using f unfolding b by (simp add: g0_def)
qed

lemma pick_color_in_palette:
  assumes "0 \<le> u" "u < 1"
  shows "pick_color Color u \<in> set (colorPalette Color)"
proof -
  have l: "length (colorPalette Color) = 5" by (simp add: colorPalette_def)
  have "u * 5 < 5" using assms by simp
  then have "\<lfloor>u * 5\<rfloor> < 5" by (simp add: floor_less_iff)
  moreover have "0 \<le> \<lfloor>u * 5\<rfloor>" using assms by simp
  ultimately have "nat \<lfloor>u * 5\<rfloor> < 5" by linarith
  then have "nat \<lfloor>u * real (length (colorPalette Color))\<rfloor> < length (colorPalette Color)"
    unfolding l by simp
  then show ?thesis unfolding pick_color_def by (rule nth_mem)
qed

lemma highlight_step_inv:
  assumes len: "length (instanceColor s) = count * 3"
    and hov: "- 1 \<le> hoveredInstanceId s"
    and inv: "\<forall>j<count. color_at (instanceColor s) j =
                (if int j = hoveredInstanceId s then whiteColor Color else color_at orig j)"
  shows "length (instanceColor (highlight_step Color orig h s)) = count * 3 \<and>
         - 1 \<le> hoveredInstanceId (highlight_step Color orig h s) \<and>
         (\<forall>j<count. color_at (instanceColor (highlight_step Color orig h s)) j =
                (if int j = hoveredInstanceId (highlight_step Color orig h s)
                 then whiteColor Color else color_at orig j))"
proof -
  define restored where "restored =
     (if hoveredInstanceId s \<noteq> - 1
      then setColorAt (instanceColor s) (nat (hoveredInstanceId s)) (color_at orig (nat (hoveredInstanceId s)))
      else instanceColor s)"
  have rl: "length restored = count * 3" using len by (simp add: restored_def setColorAt_def length_write3)
  have ro: "color_at restored j = color_at orig j" if j: "j < count" for j
  proof (cases "hoveredInstanceId s = - 1")
    case True
    then have "int j \<noteq> hoveredInstanceId s" by simp
    with inv j True show ?thesis by (simp add: restored_def)
  next
    case False
    with hov have nn: "0 \<le> hoveredInstanceId s" by simp
    have "color_at restored j = (if j = nat (hoveredInstanceId s) then color_at orig (nat (hoveredInstanceId s))
                                 else color_at (instanceColor s) j)"
      using False color_at_write3[OF len j] by (simp add: restored_def setColorAt_def)
    moreover have "int j \<noteq> hoveredInstanceId s" if "j \<noteq> nat (hoveredInstanceId s)"
      using that nn by auto
    ultimately show ?thesis using inv j by auto
  qed
  show ?thesis
  proof (cases h)
    case None
    show ?thesis
    proof (cases "hoveredInstanceId s = - 1")
      case True
      with None have "highlight_step Color orig h s = s" by (simp add: highlight_step_def)
      with assms show ?thesis by simp
    next
      case False
      with None have e: "highlight_step Color orig h s = \<lparr> instanceColor = restored, hoveredInstanceId = - 1 \<rparr>"
        by (simp add: highlight_step_def restored_def)
      show ?thesis unfolding e using rl ro by simp
    qed
  next
    case (Some b)
    show ?thesis
    proof (cases "int b = hoveredInstanceId s")
      case True
      with Some have "highlight_step Color orig h s = s" by (simp add: highlight_step_def)
      with assms show ?thesis by simp
    next
      case False
      with Some have e: "highlight_step Color orig h s =
         \<lparr> instanceColor = setColorAt restored b (whiteColor Color), hoveredInstanceId = int b \<rparr>"
        by (simp add: highlight_step_def restored_def Let_def)
      show ?thesis unfolding e using rl ro color_at_write3[OF rl]
        by (simp add: setColorAt_def length_write3)
    qed
  qed
qed

lemma highlight_frames_inv:
  "length (instanceColor s) = count * 3 \<Longrightarrow> - 1 \<le> hoveredInstanceId s \<Longrightarrow>
   \<forall>j<count. color_at (instanceColor s) j =
                (if int j = hoveredInstanceId s then whiteColor Color else color_at orig j) \<Longrightarrow>
   length (instanceColor (highlight_frames Color orig hits s)) = count * 3 \<and>
   - 1 \<le> hoveredInstanceId (highlight_frames Color orig hits s) \<and>
   (\<forall>j<count. color_at (instanceColor (highlight_frames Color orig hits s)) j =
                (if int j = hoveredInstanceId (highlight_frames Color orig hits s)
                 then whiteColor Color else color_at orig j))"
proof (induction hits arbitrary: s)
  case Nil then show ?case by simp
next
  case (Cons h hits)
  from highlight_step_inv[OF Cons.prems, of h] have
    a: "length (instanceColor (highlight_step Color orig h s)) = count * 3"
    and b: "- 1 \<le> hoveredInstanceId (highlight_step Color orig h s)"
    and c: "\<forall>j<count. color_at (instanceColor (highlight_step Color orig h s)) j =
                (if int j = hoveredInstanceId (highlight_step Color orig h s)
                 then whiteColor Color else color_at orig j)" by blast+
  from Cons.IH[OF a b c] show ?case by simp
qed

text \<open>
  Claim C9. The table \<open>originalColors\<close> holds, for every ornament, the palette colour drawn
  for it when the group was built, and the highlight code only reads it. After any sequence
  of hit-test results every ornament other than the one now highlighted has exactly that
  colour, and the highlighted one is white; so no other ornament's colour is ever changed,
  and whenever a frame moves the selection to another instance or clears it, the instance
  highlighted before has its original colour again.
\<close>

theorem highlight_restores_original_color:
  assumes "rng_ok rnd"
  shows "let g = build_ornaments Color count rnd k;
             orig = originalColors g;
             s = highlight_frames Color orig hits (highlight_init g)
         in (\<forall>j<count. color_at orig j = pick_color Color (rnd (k + 4 * j + 3)) \<and>
                        color_at orig j \<in> set (colorPalette Color)) \<and>
            (\<forall>j<count. color_at (instanceColor s) j =
                 (if int j = hoveredInstanceId s then whiteColor Color else color_at orig j)) \<and>
            (\<forall>h j. j < count \<and> int j = hoveredInstanceId s \<and>
                   hoveredInstanceId (highlight_step Color orig h s) \<noteq> hoveredInstanceId s \<longrightarrow>
                 color_at (instanceColor (highlight_step Color orig h s)) j = color_at orig j)"
proof -
  define g where "g = build_ornaments Color count rnd k"
  define orig where "orig = originalColors g"
  define s where "s = highlight_frames Color orig hits (highlight_init g)"
  note bc = build_ornaments_colors[where Color=Color and N=count and rnd=rnd and k=k, folded g_def]
  have i1: "length (instanceColor (highlight_init g)) = count * 3"
    and i2: "- 1 \<le> hoveredInstanceId (highlight_init g)"
    and i3: "\<forall>j<count. color_at (instanceColor (highlight_init g)) j =
                (if int j = hoveredInstanceId (highlight_init g) then whiteColor Color else color_at orig j)"
    using bc(1,2) by (simp_all add: highlight_init_def orig_def)
  note inv = highlight_frames_inv[OF i1 i2 i3, of hits, folded s_def]
  from inv have l: "length (instanceColor s) = count * 3" and hv: "- 1 \<le> hoveredInstanceId s"
    and c: "\<forall>j<count. color_at (instanceColor s) j =
                (if int j = hoveredInstanceId s then whiteColor Color else color_at orig j)" by blast+
  have a: "\<forall>j<count. color_at orig j = pick_color Color (rnd (k + 4 * j + 3)) \<and>
                        color_at orig j \<in> set (colorPalette Color)"
    using bc(3) pick_color_in_palette[of "rnd (k + 4 * j + 3)" Color for j] assms
    by (simp add: orig_def rng_ok_def)
  have m: "color_at (instanceColor (highlight_step Color orig h s)) j = color_at orig j"
    if "j < count \<and> int j = hoveredInstanceId s \<and>
        hoveredInstanceId (highlight_step Color orig h s) \<noteq> hoveredInstanceId s" for h j
    using highlight_step_inv[OF l hv c, of h] that by auto
  from a c m show ?thesis unfolding Let_def g_def[symmetric] orig_def[symmetric] s_def[symmetric] by blast
qed

text \<open>
  Three ornaments, all drawn red with every draw \<open>0\<close>, and the hit tests \<open>0, 0, 1, none\<close>: after
  the third frame ornament \<open>0\<close> is red again and ornament \<open>1\<close> is white; after the fourth nothing
  is highlighted and ornament \<open>1\<close> is red again.
\<close>

theorem highlight_restores_witness:
  "rng_ok (\<lambda>k. 0) \<and>
   hoveredInstanceId (highlight_frames hex_color (originalColors (build_ornaments hex_color 3 (\<lambda>k. 0) 0))
      [Some 0, Some 0, Some 1] (highlight_init (build_ornaments hex_color 3 (\<lambda>k. 0) 0))) = 1 \<and>
   color_at (instanceColor (highlight_frames hex_color (originalColors (build_ornaments hex_color 3 (\<lambda>k. 0) 0))
      [Some 0, Some 0, Some 1] (highlight_init (build_ornaments hex_color 3 (\<lambda>k. 0) 0)))) 0
     = hex_color 0xcc2222 \<and>
   color_at (instanceColor (highlight_frames hex_color (originalColors (build_ornaments hex_color 3 (\<lambda>k. 0) 0))
      [Some 0, Some 0, Some 1] (highlight_init (build_ornaments hex_color 3 (\<lambda>k. 0) 0)))) 1
     = whiteColor hex_color \<and>
   hoveredInstanceId (highlight_frames hex_color (originalColors (build_ornaments hex_color 3 (\<lambda>k. 0) 0))
      [Some 0, Some 0, Some 1, None] (highlight_init (build_ornaments hex_color 3 (\<lambda>k. 0) 0))) = - 1 \<and>
   color_at (instanceColor (highlight_frames hex_color (originalColors (build_ornaments hex_color 3 (\<lambda>k. 0) 0))
      [Some 0, Some 0, Some 1, None] (highlight_init (build_ornaments hex_color 3 (\<lambda>k. 0) 0)))) 1
     = hex_color 0xcc2222"
proof -
  define g where "g = build_ornaments hex_color 3 (\<lambda>k. 0) 0"
  define orig where "orig = originalColors g"
  define s3 where "s3 = highlight_frames hex_color orig [Some 0, Some 0, Some 1] (highlight_init g)"
  define s4 where "s4 = highlight_frames hex_color orig [Some 0, Some 0, Some 1, None] (highlight_init g)"
  have r: "rng_ok (\<lambda>k. 0)" by (simp add: rng_ok_def)
  have h3: "hoveredInstanceId s3 = 1" by (simp add: s3_def highlight_step_def highlight_init_def Let_def)
  have h4: "hoveredInstanceId s4 = - 1" by (simp add: s4_def highlight_step_def highlight_init_def Let_def)
  note t3 = highlight_restores_original_color[OF r, of hex_color 3 0 "[Some 0, Some 0, Some 1]",
      unfolded Let_def, folded g_def, folded orig_def, folded s3_def]
  note t4 = highlight_restores_original_color[OF r, of hex_color 3 0 "[Some 0, Some 0, Some 1, None]",
      unfolded Let_def, folded g_def, folded orig_def, folded s4_def]
  have j: "(0::nat) < 3" "(1::nat) < 3" by simp_all
  have p: "pick_color hex_color 0 = hex_color 0xcc2222" by (simp add: pick_color_def colorPalette_def)
  from t3 j(1) have o0: "color_at orig 0 = pick_color hex_color ((\<lambda>k. 0) (0 + 4 * 0 + 3))" by blast
  from t3 j(2) have o1: "color_at orig 1 = pick_color hex_color ((\<lambda>k. 0) (0 + 4 * 1 + 3))" by blast
  from t3 j(1) have "color_at (instanceColor s3) 0 =
     (if int 0 = hoveredInstanceId s3 then whiteColor hex_color else color_at orig 0)" by blast
  then have a: "color_at (instanceColor s3) 0 = hex_color 0xcc2222" unfolding h3 o0 p by simp
  from t3 j(2) have "color_at (instanceColor s3) 1 =
     (if int 1 = hoveredInstanceId s3 then whiteColor hex_color else color_at orig 1)" by blast
  then have b: "color_at (instanceColor s3) 1 = whiteColor hex_color" unfolding h3 by simp
  from t4 j(2) have "color_at (instanceColor s4) 1 =
     (if int 1 = hoveredInstanceId s4 then whiteColor hex_color else color_at orig 1)" by blast
  then have c: "color_at (instanceColor s4) 1 = hex_color 0xcc2222" unfolding h4 o1 p by simp
  show ?thesis using r h3 a b h4 c unfolding s3_def s4_def orig_def g_def by blast
qed

end
